theory Spec2Isabelle
  imports Main "HOL-Library.Word"
begin

section \<open>VFS automatic mounts (lib/vfscore/automount.c)\<close>

text \<open>
  A shallow embedding of \<^verbatim>\<open>lib/vfscore/automount.c\<close>. The build options tested by the
  preprocessor are fields of a configuration record, the collaborators that are only called
  (\<^verbatim>\<open>mount\<close>, \<^verbatim>\<open>ukcpio_extract\<close>, \<^verbatim>\<open>ukplat_memregion_find_initrd0\<close>) are oracles whose
  answer may depend on everything called before, every call is appended to a trace, and the
  character buffers of the mount table are an explicit store, because the tokenizer writes
  into them. The \<^verbatim>\<open>uk_pr_*\<close> log calls have no effect on any value and are left out.
\<close>

subsection \<open>C strings and the pointers into them\<close>

text \<open>
  A character buffer is the list of its bytes before the terminating NUL; the terminator
  itself is implicit at index \<open>length b\<close>, and is never overwritten by this file.
  A byte inside the list may become NUL, which ends the C string read from an earlier index.
\<close>

abbreviation NUL :: char where
  "NUL \<equiv> CHR 0x00"

definition peek :: "string \<Rightarrow> nat \<Rightarrow> char" where
  "peek b k = (if k < length b then b ! k else NUL)"

definition cstr_at :: "string \<Rightarrow> nat \<Rightarrow> string" where
  "cstr_at b k = takeWhile (\<lambda>c. c \<noteq> NUL) (drop k b)"

text \<open>
  \<^verbatim>\<open>strchr\<close>, as an offset from the start of the scan: the first byte equal to \<open>c\<close> at or
  before the terminator (the terminator itself matches when \<open>c\<close> is NUL).
\<close>

fun strchr_off :: "string \<Rightarrow> char \<Rightarrow> nat option" where
  "strchr_off [] c = (if c = NUL then Some 0 else None)"
| "strchr_off (x # xs) c =
     (if x = c then Some 0
      else if x = NUL then None
      else map_option Suc (strchr_off xs c))"

definition strchr :: "string \<Rightarrow> nat \<Rightarrow> char \<Rightarrow> nat option" where
  "strchr b k c = map_option (\<lambda>j. k + j) (strchr_off (drop k b) c)"

text \<open>
  \<^verbatim>\<open>strncmp\<close> on two C strings given by their contents (the end of the list is the
  terminator): the difference of the first differing bytes among the first \<open>n\<close>.
\<close>

fun strncmp :: "string \<Rightarrow> string \<Rightarrow> nat \<Rightarrow> int" where
  "strncmp xs ys 0 = 0"
| "strncmp [] [] (Suc n) = 0"
| "strncmp [] (y # ys) (Suc n) = - int (of_char y)"
| "strncmp (x # xs) [] (Suc n) = int (of_char x)"
| "strncmp (x # xs) (y # ys) (Suc n) =
     (if x = y then strncmp xs ys n else int (of_char x) - int (of_char y))"

text \<open>
  Modelled from the spec: \<^verbatim>\<open>strtol\<close> of the C library, which is not in the source file.
  The spec asks for "an integer honoring a leading 0x/0X prefix for hexadecimal and a
  leading 0 for octal, decimal otherwise (auto base-detection)"; as in C, leading white
  space and one sign are skipped, the longest run of digits of the base is converted, no
  digit at all gives 0, and the result saturates at the bounds of a 64-bit \<^verbatim>\<open>long\<close>.
\<close>

definition isspace :: "char \<Rightarrow> bool" where
  "isspace c = (c \<in> set [CHR '' '', CHR 0x09, CHR 0x0A, CHR 0x0B, CHR 0x0C, CHR 0x0D])"

definition digit_of :: "char \<Rightarrow> nat option" where
  "digit_of c =
     (let n = (of_char c :: nat) in
      if 48 \<le> n \<and> n \<le> 57 then Some (n - 48)
      else if 97 \<le> n \<and> n \<le> 122 then Some (n - 87)
      else if 65 \<le> n \<and> n \<le> 90 then Some (n - 55)
      else None)"

fun strtol_digits :: "nat \<Rightarrow> nat \<Rightarrow> string \<Rightarrow> nat" where
  "strtol_digits base acc [] = acc"
| "strtol_digits base acc (c # cs) =
     (case digit_of c of
        None \<Rightarrow> acc
      | Some d \<Rightarrow> if d < base then strtol_digits base (acc * base + d) cs else acc)"

definition LONG_MAX :: int where
  "LONG_MAX = 2 ^ 63 - 1"

definition LONG_MIN :: int where
  "LONG_MIN = - (2 ^ 63)"

definition strtol_sign :: "string \<Rightarrow> bool \<times> string" where
  "strtol_sign s =
     (case s of
        [] \<Rightarrow> (False, [])
      | c # r \<Rightarrow> if c = CHR ''-'' then (True, r)
                 else if c = CHR ''+'' then (False, r)
                 else (False, s))"

definition strtol_base :: "nat \<Rightarrow> string \<Rightarrow> nat \<times> string" where
  "strtol_base base s =
     (case s of
        c # x # r \<Rightarrow>
          if (base = 0 \<or> base = 16) \<and> c = CHR ''0'' \<and> (x = CHR ''x'' \<or> x = CHR ''X'')
          then (16, r)
          else if base = 0 then (if c = CHR ''0'' then 8 else 10, s)
          else (base, s)
      | _ \<Rightarrow> if base = 0 then (if s = ''0'' then 8 else 10, s) else (base, s))"

definition strtol :: "string \<Rightarrow> nat \<Rightarrow> int" where
  "strtol nptr base =
     (case strtol_sign (dropWhile isspace nptr) of
        (neg, s) \<Rightarrow>
          (case strtol_base base s of
             (b, digits) \<Rightarrow>
               (let v = int (strtol_digits b 0 digits)
                in if neg then max (- v) LONG_MIN else min v LONG_MAX)))"

subsection \<open>The volume descriptor and the mount table\<close>

text \<open>
  A \<^verbatim>\<open>char *\<close> of this file always points into a buffer of the mount table: it is the
  index of the table slot and the offset in that slot's buffer. A \<^verbatim>\<open>const char *\<close> is
  such a pointer or the address of a string literal; the null pointer is \<open>None\<close>.
\<close>

type_synonym charp = "nat \<times> nat"

datatype const_charp = Lit string | Mut charp

record vfscore_volume =
  sdev :: "const_charp option"
  path :: "const_charp option"
  drv :: "const_charp option"
  flags :: "64 word"
  opts :: "const_charp option"

text \<open>
  \<^verbatim>\<open>static char *vfscore_fstab[CONFIG_LIBVFSCORE_FSTAB_SIZE]\<close>: one slot per list element,
  \<open>None\<close> for a null slot, otherwise the buffer that the slot points to. The length of the
  list is \<^verbatim>\<open>CONFIG_LIBVFSCORE_FSTAB_SIZE\<close>.
\<close>

type_synonym fstab_mem = "string option list"

definition buf_of :: "fstab_mem \<Rightarrow> nat \<Rightarrow> string" where
  "buf_of m i = (if i < length m then (case m ! i of None \<Rightarrow> [] | Some b \<Rightarrow> b) else [])"

definition slot :: "fstab_mem \<Rightarrow> nat \<Rightarrow> charp option" where
  "slot m i = (if i < length m then (case m ! i of None \<Rightarrow> None | Some b \<Rightarrow> Some (i, 0)) else None)"

definition deref :: "fstab_mem \<Rightarrow> const_charp \<Rightarrow> string" where
  "deref m p = (case p of Lit s \<Rightarrow> cstr_at s 0 | Mut (i, k) \<Rightarrow> cstr_at (buf_of m i) k)"

datatype error = UK_ASSERT_failed string

abbreviation LIBVFSCORE_FSTAB_VOLUME_ARGS_SEP :: char where
  "LIBVFSCORE_FSTAB_VOLUME_ARGS_SEP \<equiv> CHR '':''"

subsection \<open>The fstab entry parser\<close>

text \<open>
  \<^verbatim>\<open>vfscore_fstab_next_volume_arg(char **pos)\<close>: the result is the returned token pointer,
  the new value of \<^verbatim>\<open>*pos\<close> and the store, where the separator found has been overwritten
  with NUL.
\<close>

definition vfscore_fstab_next_volume_arg ::
  "charp option \<Rightarrow> fstab_mem \<Rightarrow> charp option \<times> charp option \<times> fstab_mem" where
  "vfscore_fstab_next_volume_arg pos m =
     (case pos of
        None \<Rightarrow> (None, None, m)
      | Some (i, k) \<Rightarrow>
          (case strchr (buf_of m i) k LIBVFSCORE_FSTAB_VOLUME_ARGS_SEP of
             None \<Rightarrow> (Some (i, k), None, m)
           | Some p \<Rightarrow>
               if peek (buf_of m i) p \<noteq> NUL
               then (Some (i, k), Some (i, p + 1), m[i := Some ((buf_of m i)[p := NUL])])
               else (Some (i, k), None, m)))"

text \<open>
  \<^verbatim>\<open>vfscore_fstab_fetch_volume_args(char *v, struct vfscore_volume *vv)\<close>. The descriptor
  is updated in place, so the model takes the descriptor as the caller left it. A failed
  \<^verbatim>\<open>UK_ASSERT\<close> ends the program: it is the error result.

  Modelled from the spec: the \<^verbatim>\<open>UK_ASSERT\<close> macro of \<^verbatim>\<open>uk/assert.h\<close>, which is not in the
  source file; the spec calls it a process-terminating assertion. The assertions on the
  addresses of local variables (\<^verbatim>\<open>UK_ASSERT(pos)\<close>, \<^verbatim>\<open>UK_ASSERT(vv)\<close>) cannot fail and
  have no branch in the model.
\<close>

definition vfscore_fstab_fetch_volume_args ::
  "charp option \<Rightarrow> vfscore_volume \<Rightarrow> fstab_mem \<Rightarrow> error + (vfscore_volume \<times> fstab_mem)" where
  "vfscore_fstab_fetch_volume_args v vv m =
     (if v = None then Inl (UK_ASSERT_failed ''v'') else
      case vfscore_fstab_next_volume_arg v m of (t1, pos1, m1) \<Rightarrow>
      if t1 = None then Inl (UK_ASSERT_failed ''vv->sdev'') else
      case vfscore_fstab_next_volume_arg pos1 m1 of (t2, pos2, m2) \<Rightarrow>
      if t2 = None then Inl (UK_ASSERT_failed ''vv->path'') else
      case vfscore_fstab_next_volume_arg pos2 m2 of (t3, pos3, m3) \<Rightarrow>
      if t3 = None then Inl (UK_ASSERT_failed ''vv->drv'') else
      let vv3 = vv\<lparr>sdev := map_option Mut t1, path := map_option Mut t2,
                     drv := map_option Mut t3\<rparr> in
      if pos3 = None then Inr (vv3, m3) else
      case vfscore_fstab_next_volume_arg pos3 m3 of (fl, pos4, m4) \<Rightarrow>
      let vv4 = vv3\<lparr>flags :=
                  (case fl of
                     None \<Rightarrow> 0
                   | Some (i, k) \<Rightarrow>
                       if peek (buf_of m4 i) k \<noteq> NUL
                       then word_of_int (strtol (cstr_at (buf_of m4 i) k) 0)
                       else 0)\<rparr> in
      case vfscore_fstab_next_volume_arg pos4 m4 of (o5, pos5, m5) \<Rightarrow>
      Inr (vv4\<lparr>opts :=
                 (case o5 of
                    None \<Rightarrow> None
                  | Some (i, k) \<Rightarrow>
                      if peek (buf_of m5 i) k = NUL then None else Some (Mut (i, k)))\<rparr>,
           m5))"

subsection \<open>The collaborators and the state\<close>

text \<open>
  The arguments of one \<^verbatim>\<open>mount(dev, dir, fstype, flags, data)\<close> call, with every string
  read at the time of the call.
\<close>

type_synonym mount_args =
  "string option \<times> string option \<times> string option \<times> 64 word \<times> string option"

datatype event =
    Mount mount_args
  | Ukcpio_extract "string option" "64 word" "64 word"
  | Memregion_find_initrd0

text \<open>
  What the collaborators answer. Each may look at every call made so far, so that a
  \<^verbatim>\<open>mount\<close> may, for example, refuse a path that is already mounted. The status of
  \<^verbatim>\<open>mount\<close> and \<^verbatim>\<open>ukcpio_extract\<close> is a C \<^verbatim>\<open>int\<close>, on which the file does no arithmetic;
  \<^verbatim>\<open>ukplat_memregion_find_initrd0\<close> gives its status and the \<^verbatim>\<open>vbase\<close> and \<^verbatim>\<open>len\<close> of the
  region.
\<close>

record env =
  env_mount :: "event list \<Rightarrow> mount_args \<Rightarrow> int"
  env_ukcpio_extract :: "event list \<Rightarrow> string option \<Rightarrow> 64 word \<Rightarrow> 64 word \<Rightarrow> int"
  env_find_initrd0 :: "event list \<Rightarrow> int \<times> 64 word \<times> 64 word"

record state =
  fstab :: fstab_mem
  trace :: "event list"

text \<open>The build options and the linker symbols that the file reads.\<close>

record config =
  LIBVFSCORE_AUTOMOUNT_ROOTFS :: bool
  LIBVFSCORE_ROOTFS_EINITRD :: bool
  LIBUKCPIO :: bool
  LIBRAMFS :: bool
  LIBVFSCORE_FSTAB :: bool
  LIBVFSCORE_ROOTDEV :: "string option"
  LIBVFSCORE_ROOTFS :: "string option"
  LIBVFSCORE_ROOTFLAGS :: "64 word option"
  LIBVFSCORE_ROOTOPTS :: "string option"
  vfscore_einitrd_start :: "64 word"
  vfscore_einitrd_end :: "64 word"

definition mount :: "env \<Rightarrow> mount_args \<Rightarrow> state \<Rightarrow> int \<times> state" where
  "mount e a st = (env_mount e (trace st) a, st\<lparr>trace := trace st @ [Mount a]\<rparr>)"

definition ukcpio_extract ::
  "env \<Rightarrow> string option \<Rightarrow> 64 word \<Rightarrow> 64 word \<Rightarrow> state \<Rightarrow> int \<times> state" where
  "ukcpio_extract e p initrd len st =
     (env_ukcpio_extract e (trace st) p initrd len,
      st\<lparr>trace := trace st @ [Ukcpio_extract p initrd len]\<rparr>)"

definition ukplat_memregion_find_initrd0 ::
  "env \<Rightarrow> state \<Rightarrow> (int \<times> 64 word \<times> 64 word) \<times> state" where
  "ukplat_memregion_find_initrd0 e st =
     (env_find_initrd0 e (trace st), st\<lparr>trace := trace st @ [Memregion_find_initrd0]\<rparr>)"

subsection \<open>Mounting one volume\<close>

text \<open>
  The five arguments \<^verbatim>\<open>vv->sdev, vv->path, vv->drv, vv->flags, vv->opts\<close> as the callee
  reads them in the store \<open>m\<close>.
\<close>

definition volume_args :: "fstab_mem \<Rightarrow> vfscore_volume \<Rightarrow> mount_args" where
  "volume_args m vv =
     (map_option (deref m) (sdev vv),
      map_option (deref m) (path vv),
      map_option (deref m) (drv vv),
      flags vv,
      map_option (deref m) (opts vv))"

definition vfscore_mount_volume :: "env \<Rightarrow> vfscore_volume \<Rightarrow> state \<Rightarrow> int \<times> state" where
  "vfscore_mount_volume e vv st = mount e (volume_args (fstab st) vv) st"

definition do_mount_initrd ::
  "env \<Rightarrow> 64 word \<Rightarrow> 64 word \<Rightarrow> const_charp option \<Rightarrow> state \<Rightarrow> error + (int \<times> state)" where
  "do_mount_initrd e initrd len p st =
     (case p of
        None \<Rightarrow> Inl (UK_ASSERT_failed ''path'')
      | Some q \<Rightarrow>
          (case mount e (Some [], Some (deref (fstab st) q), Some ''ramfs'', 0, None) st of
             (rc, st1) \<Rightarrow>
               if rc \<noteq> 0 then Inr (- 1, st1)
               else
                 (case ukcpio_extract e (Some (deref (fstab st1) q)) initrd len st1 of
                    (rc2, st2) \<Rightarrow> if rc2 \<noteq> 0 then Inr (- 1, st2) else Inr (0, st2))))"

definition vfscore_mount_initrd_volume ::
  "env \<Rightarrow> vfscore_volume \<Rightarrow> state \<Rightarrow> error + (int \<times> state)" where
  "vfscore_mount_initrd_volume e vv st =
     (case ukplat_memregion_find_initrd0 e st of
        ((rc, vbase, len), st1) \<Rightarrow>
          if rc < 0 then Inr (- 1, st1)
          else do_mount_initrd e vbase len (path vv) st1)"

text \<open>
  \<^verbatim>\<open>!strncmp(vv.drv, "initrd", sizeof("initrd") - 1)\<close>. Both callers have a driver that is
  not null when they test it.
\<close>

definition drv_is_initrd :: "fstab_mem \<Rightarrow> vfscore_volume \<Rightarrow> bool" where
  "drv_is_initrd m vv =
     (case drv vv of None \<Rightarrow> False | Some d \<Rightarrow> strncmp (deref m d) ''initrd'' 6 = 0)"

subsection \<open>The root file system\<close>

text \<open>
  The descriptor that \<^verbatim>\<open>vfscore_automount_rootfs\<close> builds from the options. An option that
  is not defined is \<open>None\<close>; \<^verbatim>\<open>CONFIG_LIBVFSCORE_ROOTFS\<close> is used without a test, so there
  \<open>None\<close> stands for a definition as the null pointer.
\<close>

definition rootfs_volume :: "config \<Rightarrow> vfscore_volume" where
  "rootfs_volume cfg =
     \<lparr>sdev = Some (Lit (case LIBVFSCORE_ROOTDEV cfg of None \<Rightarrow> [] | Some d \<Rightarrow> d)),
      path = Some (Lit ''/''),
      drv = map_option Lit (LIBVFSCORE_ROOTFS cfg),
      flags = (case LIBVFSCORE_ROOTFLAGS cfg of None \<Rightarrow> 0 | Some f \<Rightarrow> f),
      opts = Some (Lit (case LIBVFSCORE_ROOTOPTS cfg of None \<Rightarrow> [] | Some d \<Rightarrow> d))\<rparr>"

text \<open>
  The three definitions of \<^verbatim>\<open>vfscore_automount_rootfs\<close>, in the order of the preprocessor
  tests: without \<^verbatim>\<open>CONFIG_LIBVFSCORE_AUTOMOUNT_ROOTFS\<close> it only returns 0; with
  \<^verbatim>\<open>CONFIG_LIBVFSCORE_ROOTFS_EINITRD\<close> it extracts the embedded image; otherwise it mounts
  what the options describe.
\<close>

definition vfscore_automount_rootfs :: "config \<Rightarrow> env \<Rightarrow> state \<Rightarrow> error + (int \<times> state)" where
  "vfscore_automount_rootfs cfg e st =
     (if \<not> LIBVFSCORE_AUTOMOUNT_ROOTFS cfg then Inr (0, st)
      else if LIBVFSCORE_ROOTFS_EINITRD cfg then
        do_mount_initrd e (vfscore_einitrd_start cfg)
          (vfscore_einitrd_end cfg - vfscore_einitrd_start cfg) (Some (Lit ''/'')) st
      else
        (let vv = rootfs_volume cfg in
         case drv vv of
           None \<Rightarrow> Inr (0, st)
         | Some d \<Rightarrow>
             if deref (fstab st) d = [] then Inr (0, st)
             else if LIBUKCPIO cfg \<and> LIBRAMFS cfg \<and> drv_is_initrd (fstab st) vv
             then vfscore_mount_initrd_volume e vv st
             else Inr (vfscore_mount_volume e vv st)))"

subsection \<open>The volumes of the mount table\<close>

text \<open>
  One turn of the loop of \<^verbatim>\<open>vfscore_automount_fstab_volumes\<close> for slot \<open>i\<close>: the entry is
  parsed into the descriptor \<open>vv\<close>, which lives across the turns, and then mounted.
\<close>

definition vfscore_automount_fstab_entry ::
  "config \<Rightarrow> env \<Rightarrow> nat \<Rightarrow> vfscore_volume \<Rightarrow> state \<Rightarrow>
     error + (int \<times> vfscore_volume \<times> state)" where
  "vfscore_automount_fstab_entry cfg e i vv st =
     (case vfscore_fstab_fetch_volume_args (slot (fstab st) i) vv (fstab st) of
        Inl err \<Rightarrow> Inl err
      | Inr (vv1, m1) \<Rightarrow>
          (let st1 = st\<lparr>fstab := m1\<rparr> in
           case (if LIBUKCPIO cfg \<and> LIBRAMFS cfg \<and> drv_is_initrd m1 vv1
                 then vfscore_mount_initrd_volume e vv1 st1
                 else Inr (vfscore_mount_volume e vv1 st1)) of
             Inl err \<Rightarrow> Inl err
           | Inr (rc, st2) \<Rightarrow> Inr (rc, vv1, st2)))"

function vfscore_automount_fstab_loop ::
  "config \<Rightarrow> env \<Rightarrow> nat \<Rightarrow> nat \<Rightarrow> vfscore_volume \<Rightarrow> state \<Rightarrow> error + (int \<times> state)" where
  "vfscore_automount_fstab_loop cfg e n i vv st =
     (if i < n \<and> slot (fstab st) i \<noteq> None then
        (case vfscore_automount_fstab_entry cfg e i vv st of
           Inl err \<Rightarrow> Inl err
         | Inr (rc, vv1, st1) \<Rightarrow>
             if rc \<noteq> 0 then Inr (rc, st1)
             else vfscore_automount_fstab_loop cfg e n (i + 1) vv1 st1)
      else Inr (0, st))"
  by pat_completeness auto
termination
  by (relation "measure (\<lambda>(cfg, e, n, i, vv, st). n - i)") auto

declare vfscore_automount_fstab_loop.simps [simp del]

text \<open>
  \<^verbatim>\<open>vfscore_automount_fstab_volumes\<close>. Its local \<^verbatim>\<open>struct vfscore_volume vv\<close> is not
  initialised: \<open>vv0\<close> is whatever it holds at entry.
\<close>

definition vfscore_automount_fstab_volumes ::
  "config \<Rightarrow> env \<Rightarrow> vfscore_volume \<Rightarrow> state \<Rightarrow> error + (int \<times> state)" where
  "vfscore_automount_fstab_volumes cfg e vv0 st =
     (if LIBVFSCORE_FSTAB cfg
      then vfscore_automount_fstab_loop cfg e (length (fstab st)) 0 vv0 st
      else Inr (0, st))"

subsection \<open>The entry point\<close>

definition vfscore_automount ::
  "config \<Rightarrow> env \<Rightarrow> vfscore_volume \<Rightarrow> state \<Rightarrow> error + (int \<times> state)" where
  "vfscore_automount cfg e vv0 st =
     (case vfscore_automount_rootfs cfg e st of
        Inl err \<Rightarrow> Inl err
      | Inr (rc, st1) \<Rightarrow>
          if rc < 0 then Inr (rc, st1)
          else vfscore_automount_fstab_volumes cfg e vv0 st1)"

section \<open>Notions used to state the properties\<close>

text \<open>
  The colon-delimited fields of an entry string, as the spec describes the entry format
  \<^verbatim>\<open>source:path:driver[:flags[:options]]\<close>: the string is cut at every separator, so a
  string with \<open>n\<close> separators has \<open>n + 1\<close> fields, some of which may be empty. This is the
  reading of the entry that the parser is compared with; the parser itself never calls it.
\<close>

fun fields :: "string \<Rightarrow> string list" where
  "fields [] = [[]]"
| "fields (c # cs) =
     (if c = CHR '':'' then [] # fields cs
      else (case fields cs of [] \<Rightarrow> [[c]] | t # ts \<Rightarrow> (c # t) # ts))"

text \<open>
  The five values that a mount of the entry \<open>s\<close> would receive when \<open>s\<close> is the only entry of
  the table and \<open>vv\<close> is the descriptor as it was before the parse.
\<close>

definition parse_entry :: "string \<Rightarrow> vfscore_volume \<Rightarrow> error + mount_args" where
  "parse_entry s vv =
     (case vfscore_fstab_fetch_volume_args (slot [Some s] 0) vv [Some s] of
        Inl err \<Rightarrow> Inl err
      | Inr (vv', m') \<Rightarrow> Inr (volume_args m' vv'))"

text \<open>
  \<open>separators_cleared m m'\<close>: the tables \<open>m\<close> and \<open>m'\<close> have the same slots, with buffers of
  the same lengths, and every byte of \<open>m'\<close> is the byte of \<open>m\<close> or a NUL where \<open>m\<close> has a
  separator.
\<close>

definition separators_cleared :: "fstab_mem \<Rightarrow> fstab_mem \<Rightarrow> bool" where
  "separators_cleared m m' =
     list_all2 (rel_option (list_all2 (\<lambda>c c'. c' = c \<or> (c = CHR '':'' \<and> c' = NUL)))) m m'"

text \<open>
  \<open>fstab_prefix cfg e k vv st\<close>: the descriptor and the state after the entries
  \<open>0, \<dots>, k - 1\<close> have each been parsed and mounted once, one after the other in table
  order, every one of them present and mounted with status 0; \<open>None\<close> if one of them is
  absent, malformed or fails.
\<close>

fun fstab_prefix ::
  "config \<Rightarrow> env \<Rightarrow> nat \<Rightarrow> vfscore_volume \<Rightarrow> state \<Rightarrow> (vfscore_volume \<times> state) option" where
  "fstab_prefix cfg e 0 vv st = Some (vv, st)"
| "fstab_prefix cfg e (Suc k) vv st =
     (case fstab_prefix cfg e k vv st of
        None \<Rightarrow> None
      | Some (vv1, st1) \<Rightarrow>
          if slot (fstab st1) k = None then None
          else
            (case vfscore_automount_fstab_entry cfg e k vv1 st1 of
               Inl err \<Rightarrow> None
             | Inr (rc, vv2, st2) \<Rightarrow> if rc = 0 then Some (vv2, st2) else None))"

subsection \<open>Example builds, collaborators and tables\<close>

text \<open>
  A build with every option of the file on, a root file system \<^verbatim>\<open>ramfs\<close> mounted through the
  generic path, and no embedded image.
\<close>

definition cfg_example :: config where
  "cfg_example =
     \<lparr>LIBVFSCORE_AUTOMOUNT_ROOTFS = True, LIBVFSCORE_ROOTFS_EINITRD = False,
      LIBUKCPIO = True, LIBRAMFS = True, LIBVFSCORE_FSTAB = True,
      LIBVFSCORE_ROOTDEV = None, LIBVFSCORE_ROOTFS = Some ''ramfs'',
      LIBVFSCORE_ROOTFLAGS = None, LIBVFSCORE_ROOTOPTS = None,
      vfscore_einitrd_start = 0, vfscore_einitrd_end = 0\<rparr>"

text \<open>
  Collaborators that always succeed; collaborators that report no initial ramdisk; and
  collaborators whose \<^verbatim>\<open>mount\<close> returns \<open>rc\<close> on the call made after exactly \<open>n\<close> earlier
  calls, and 0 otherwise.
\<close>

definition env_ok :: env where
  "env_ok =
     \<lparr>env_mount = (\<lambda>h a. 0),
      env_ukcpio_extract = (\<lambda>h p a l. 0),
      env_find_initrd0 = (\<lambda>h. (0, 0x100000, 0x2000))\<rparr>"

definition env_no_initrd :: env where
  "env_no_initrd = env_ok\<lparr>env_find_initrd0 := (\<lambda>h. (- 2, 0, 0))\<rparr>"

definition env_mount_returns :: "nat \<Rightarrow> int \<Rightarrow> env" where
  "env_mount_returns n rc =
     \<lparr>env_mount = (\<lambda>h a. if length h = n then rc else 0),
      env_ukcpio_extract = (\<lambda>h p a l. 0),
      env_find_initrd0 = (\<lambda>h. (- 1, 0, 0))\<rparr>"

text \<open>Some content of a descriptor that nobody has initialised.\<close>

definition vv_stale :: vfscore_volume where
  "vv_stale = \<lparr>sdev = None, path = None, drv = None, flags = 0xdead, opts = Some (Lit ''stale'')\<rparr>"

text \<open>Tables of one, two and three entries, before anything has been called.\<close>

definition st_one :: state where
  "st_one = \<lparr>fstab = [Some ''sda0:/mnt:ext4:0:rw''], trace = []\<rparr>"

definition st_two :: state where
  "st_two = \<lparr>fstab = [Some ''sdb1:/data:fat:0x10:ro'', Some ''sda0:/mnt:ext4''], trace = []\<rparr>"

definition st_three :: state where
  "st_three = \<lparr>fstab = [Some ''sda0:/mnt:ext4:0:rw'', Some ''sdb1:/data:fat:1:ro'', Some ''sdc1:/opt:ext2:0:rw''], trace = []\<rparr>"

section \<open>The tokenizer on one buffer\<close>

lemma fields_nonempty: "fields s \<noteq> []"
  by (induction s) (auto split: list.splits)

lemma fields_no_sep: "CHR '':'' \<notin> set t \<Longrightarrow> fields t = [t]"
  by (induction t) auto

lemma fields_sep: "CHR '':'' \<notin> set t \<Longrightarrow> fields (t @ CHR '':'' # r) = t # fields r"
  by (induction t) auto

lemma fields_cases:
  obtains (last) "CHR '':'' \<notin> set s" "fields s = [s]"
  | (more) t r where "s = t @ CHR '':'' # r" "CHR '':'' \<notin> set t" "fields s = t # fields r"
proof (cases "CHR '':'' \<in> set s")
  case True
  then obtain t r where "s = t @ CHR '':'' # r" "CHR '':'' \<notin> set t"
    by (auto dest: split_list_first)
  then show ?thesis using more fields_sep by blast
next
  case False
  then show ?thesis using last fields_no_sep by blast
qed

lemma strchr_off_found:
  "c \<notin> set t \<Longrightarrow> NUL \<notin> set t \<Longrightarrow> strchr_off (t @ c # r) c = Some (length t)"
  by (induction t) auto

lemma strchr_off_end:
  "c \<notin> set t \<Longrightarrow> NUL \<notin> set t \<Longrightarrow> c \<noteq> NUL \<Longrightarrow> strchr_off t c = None"
  by (induction t) auto

lemma strchr_found:
  "c \<notin> set t \<Longrightarrow> NUL \<notin> set t \<Longrightarrow> strchr (pre @ t @ c # r) (length pre) c = Some (length pre + length t)"
  by (simp add: strchr_def strchr_off_found)

lemma strchr_end:
  "c \<notin> set t \<Longrightarrow> NUL \<notin> set t \<Longrightarrow> c \<noteq> NUL \<Longrightarrow> strchr (pre @ t) (length pre) c = None"
  by (simp add: strchr_def strchr_off_end)

lemma strchr_off_SomeD:
  "strchr_off xs c = Some j \<Longrightarrow> c \<noteq> NUL \<Longrightarrow> j < length xs \<and> xs ! j = c"
  by (induction xs arbitrary: j) (auto split: if_splits)

lemma strchr_SomeD:
  assumes "strchr b k c = Some p" "c \<noteq> NUL"
  shows "p < length b \<and> b ! p = c"
proof -
  from assms obtain j where j: "strchr_off (drop k b) c = Some j" "p = k + j"
    by (auto simp: strchr_def)
  from strchr_off_SomeD [OF j(1) assms(2)] j(2) show ?thesis
    by (auto simp: add.commute)
qed

lemma cstr_at_tok: "NUL \<notin> set t \<Longrightarrow> cstr_at (pre @ t @ NUL # r) (length pre) = t"
  by (auto simp: cstr_at_def takeWhile_tail)

lemma cstr_at_last: "NUL \<notin> set t \<Longrightarrow> cstr_at (pre @ t) (length pre) = t"
  by (auto simp: cstr_at_def)

lemma peek_tok: "NUL \<notin> set t \<Longrightarrow> (peek (pre @ t @ NUL # r) (length pre) = NUL) = (t = [])"
  by (cases t) (auto simp: peek_def nth_append)

lemma peek_last: "NUL \<notin> set t \<Longrightarrow> (peek (pre @ t) (length pre) = NUL) = (t = [])"
  by (cases t) (auto simp: peek_def nth_append)

lemma buf_of_Some: "i < length m \<Longrightarrow> m ! i = Some b \<Longrightarrow> buf_of m i = b"
  by (simp add: buf_of_def)

lemma buf_of_update: "i < length m \<Longrightarrow> buf_of (m[i := Some b]) i = b"
  by (simp add: buf_of_def)

lemma buf_of_nonempty: "p < length (buf_of m i) \<Longrightarrow> i < length m \<and> m ! i = Some (buf_of m i)"
  by (auto simp: buf_of_def split: if_splits option.splits)

lemma slot_Some: "i < length m \<Longrightarrow> m ! i = Some s \<Longrightarrow> slot m i = Some (i, 0)"
  by (simp add: slot_def)

lemma slot_cases: "slot m i = None \<or> slot m i = Some (i, 0)"
  by (simp add: slot_def split: option.splits)

lemma next_arg_sep:
  assumes "i < length m" "buf_of m i = pre @ t @ CHR '':'' # r"
    "CHR '':'' \<notin> set t" "NUL \<notin> set t"
  shows "vfscore_fstab_next_volume_arg (Some (i, length pre)) m =
           (Some (i, length pre), Some (i, length (pre @ t @ [NUL])),
            m[i := Some ((pre @ t @ [NUL]) @ r)])"
  using assms
  by (simp add: vfscore_fstab_next_volume_arg_def strchr_found peek_def nth_append list_update_append)

lemma next_arg_last:
  assumes "buf_of m i = pre @ t" "CHR '':'' \<notin> set t" "NUL \<notin> set t"
  shows "vfscore_fstab_next_volume_arg (Some (i, length pre)) m = (Some (i, length pre), None, m)"
  using assms by (simp add: vfscore_fstab_next_volume_arg_def strchr_end)

lemma next_arg_null: "vfscore_fstab_next_volume_arg None m = (None, None, m)"
  by (simp add: vfscore_fstab_next_volume_arg_def)

section \<open>The parser on an entry of each number of fields\<close>

text \<open>
  An entry string without NUL is read by the parser according to the number of its
  separators: none or one trips an assertion, two leave \<open>flags\<close> and \<open>opts\<close> as they were,
  three and more also set \<open>flags\<close> and \<open>opts\<close>; the fifth separator, if there is one, ends
  the options.
\<close>

lemma fetch_shape1:
  assumes i: "i < length m" and s: "m ! i = Some a"
    and c: "CHR '':'' \<notin> set a" and n: "NUL \<notin> set a"
  shows "vfscore_fstab_fetch_volume_args (Some (i, 0)) vv m = Inl (UK_ASSERT_failed ''vv->path'')"
proof -
  have n1: "vfscore_fstab_next_volume_arg (Some (i, 0)) m = (Some (i, 0), None, m)"
    using next_arg_last [of m i "[]" a] i s c n by (simp add: buf_of_Some)
  show ?thesis
    by (simp add: vfscore_fstab_fetch_volume_args_def n1 next_arg_null)
qed

lemma fetch_shape2:
  assumes i: "i < length m" and s: "m ! i = Some (a @ CHR '':'' # b)"
    and c: "CHR '':'' \<notin> set a" "CHR '':'' \<notin> set b"
    and n: "NUL \<notin> set a" "NUL \<notin> set b"
  shows "vfscore_fstab_fetch_volume_args (Some (i, 0)) vv m = Inl (UK_ASSERT_failed ''vv->drv'')"
proof -
  let ?p1 = "a @ [NUL]"
  let ?m1 = "m[i := Some (?p1 @ b)]"
  have n1: "vfscore_fstab_next_volume_arg (Some (i, 0)) m = (Some (i, 0), Some (i, length ?p1), ?m1)"
    using next_arg_sep [of i m "[]" a] i s c n by (simp add: buf_of_Some)
  have n2: "vfscore_fstab_next_volume_arg (Some (i, length ?p1)) ?m1 = (Some (i, length ?p1), None, ?m1)"
    using next_arg_last [of ?m1 i ?p1 b] i c n by (simp add: buf_of_update)
  show ?thesis
    by (simp add: vfscore_fstab_fetch_volume_args_def n1 [simplified] n2 [simplified] next_arg_null)
qed

lemma fetch_shape3:
  assumes i: "i < length m" and s: "m ! i = Some (a @ CHR '':'' # b @ CHR '':'' # c)"
    and c: "CHR '':'' \<notin> set a" "CHR '':'' \<notin> set b" "CHR '':'' \<notin> set c"
    and n: "NUL \<notin> set a" "NUL \<notin> set b" "NUL \<notin> set c"
  shows "\<exists>vv'. vfscore_fstab_fetch_volume_args (Some (i, 0)) vv m =
            Inr (vv', m[i := Some (a @ NUL # b @ NUL # c)]) \<and>
          map_option (deref (m[i := Some (a @ NUL # b @ NUL # c)])) (sdev vv') = Some a \<and>
          map_option (deref (m[i := Some (a @ NUL # b @ NUL # c)])) (path vv') = Some b \<and>
          map_option (deref (m[i := Some (a @ NUL # b @ NUL # c)])) (drv vv') = Some c \<and>
          flags vv' = flags vv \<and> opts vv' = opts vv"
proof -
  let ?p1 = "a @ [NUL]"
  let ?p2 = "?p1 @ b @ [NUL]"
  let ?m1 = "m[i := Some (?p1 @ b @ CHR '':'' # c)]"
  let ?m2 = "m[i := Some (?p2 @ c)]"
  have n1: "vfscore_fstab_next_volume_arg (Some (i, 0)) m = (Some (i, 0), Some (i, length ?p1), ?m1)"
    using next_arg_sep [of i m "[]" a] i s c n by (simp add: buf_of_Some)
  have n2: "vfscore_fstab_next_volume_arg (Some (i, length ?p1)) ?m1 = (Some (i, length ?p1), Some (i, length ?p2), ?m2)"
    using next_arg_sep [of i ?m1 ?p1 b] i c n by (simp add: buf_of_update)
  have n3: "vfscore_fstab_next_volume_arg (Some (i, length ?p2)) ?m2 = (Some (i, length ?p2), None, ?m2)"
    using next_arg_last [of ?m2 i ?p2 c] i c n by (simp add: buf_of_update)
  have d1: "cstr_at (?p2 @ c) 0 = a"
    using cstr_at_tok [of a "[]"] n by simp
  have d2: "cstr_at (?p2 @ c) (length ?p1) = b"
    using cstr_at_tok [of b ?p1] n by simp
  have d3: "cstr_at (?p2 @ c) (length ?p2) = c"
    using cstr_at_last [of c ?p2] n by simp
  show ?thesis
    using i d1 d2 d3
    by (simp add: vfscore_fstab_fetch_volume_args_def n1 [simplified] n2 [simplified] n3 [simplified]
        deref_def buf_of_update)
qed

lemma fetch_shape4:
  assumes i: "i < length m" and s: "m ! i = Some (a @ CHR '':'' # b @ CHR '':'' # c @ CHR '':'' # f)"
    and c: "CHR '':'' \<notin> set a" "CHR '':'' \<notin> set b" "CHR '':'' \<notin> set c" "CHR '':'' \<notin> set f"
    and n: "NUL \<notin> set a" "NUL \<notin> set b" "NUL \<notin> set c" "NUL \<notin> set f"
  shows "\<exists>vv'. vfscore_fstab_fetch_volume_args (Some (i, 0)) vv m =
            Inr (vv', m[i := Some (a @ NUL # b @ NUL # c @ NUL # f)]) \<and>
          volume_args (m[i := Some (a @ NUL # b @ NUL # c @ NUL # f)]) vv' =
            (Some a, Some b, Some c, (if f = [] then 0 else word_of_int (strtol f 0)), None)"
proof -
  let ?p1 = "a @ [NUL]"
  let ?p2 = "?p1 @ b @ [NUL]"
  let ?p3 = "?p2 @ c @ [NUL]"
  let ?m1 = "m[i := Some (?p1 @ b @ CHR '':'' # c @ CHR '':'' # f)]"
  let ?m2 = "m[i := Some (?p2 @ c @ CHR '':'' # f)]"
  let ?m3 = "m[i := Some (?p3 @ f)]"
  have n1: "vfscore_fstab_next_volume_arg (Some (i, 0)) m = (Some (i, 0), Some (i, length ?p1), ?m1)"
    using next_arg_sep [of i m "[]" a] i s c n by (simp add: buf_of_Some)
  have n2: "vfscore_fstab_next_volume_arg (Some (i, length ?p1)) ?m1 = (Some (i, length ?p1), Some (i, length ?p2), ?m2)"
    using next_arg_sep [of i ?m1 ?p1 b] i c n by (simp add: buf_of_update)
  have n3: "vfscore_fstab_next_volume_arg (Some (i, length ?p2)) ?m2 = (Some (i, length ?p2), Some (i, length ?p3), ?m3)"
    using next_arg_sep [of i ?m2 ?p2 c] i c n by (simp add: buf_of_update)
  have n4: "vfscore_fstab_next_volume_arg (Some (i, length ?p3)) ?m3 = (Some (i, length ?p3), None, ?m3)"
    using next_arg_last [of ?m3 i ?p3 f] i c n by (simp add: buf_of_update)
  have d1: "cstr_at (?p3 @ f) 0 = a"
    using cstr_at_tok [of a "[]"] n by simp
  have d2: "cstr_at (?p3 @ f) (length ?p1) = b"
    using cstr_at_tok [of b ?p1] n by simp
  have d3: "cstr_at (?p3 @ f) (length ?p2) = c"
    using cstr_at_tok [of c ?p2] n by simp
  have d4: "cstr_at (?p3 @ f) (length ?p3) = f"
    using cstr_at_last [of f ?p3] n by simp
  have k4: "(peek (?p3 @ f) (length ?p3) = NUL) = (f = [])"
    using peek_last [of f ?p3] n by simp
  show ?thesis
    using i d1 d2 d3 d4 k4
    by (simp add: vfscore_fstab_fetch_volume_args_def n1 [simplified] n2 [simplified] n3 [simplified] n4 [simplified]
        next_arg_null volume_args_def deref_def buf_of_update)
qed

lemma fetch_shape5:
  assumes i: "i < length m" and s: "m ! i = Some (a @ CHR '':'' # b @ CHR '':'' # c @ CHR '':'' # f @ CHR '':'' # ob)"
    and c: "CHR '':'' \<notin> set a" "CHR '':'' \<notin> set b" "CHR '':'' \<notin> set c" "CHR '':'' \<notin> set f" "CHR '':'' \<notin> set ob"
    and n: "NUL \<notin> set a" "NUL \<notin> set b" "NUL \<notin> set c" "NUL \<notin> set f" "NUL \<notin> set ob"
  shows "\<exists>vv'. vfscore_fstab_fetch_volume_args (Some (i, 0)) vv m =
            Inr (vv', m[i := Some (a @ NUL # b @ NUL # c @ NUL # f @ NUL # ob)]) \<and>
          volume_args (m[i := Some (a @ NUL # b @ NUL # c @ NUL # f @ NUL # ob)]) vv' =
            (Some a, Some b, Some c, (if f = [] then 0 else word_of_int (strtol f 0)),
             (if ob = [] then None else Some ob))"
proof -
  let ?p1 = "a @ [NUL]"
  let ?p2 = "?p1 @ b @ [NUL]"
  let ?p3 = "?p2 @ c @ [NUL]"
  let ?p4 = "?p3 @ f @ [NUL]"
  let ?m1 = "m[i := Some (?p1 @ b @ CHR '':'' # c @ CHR '':'' # f @ CHR '':'' # ob)]"
  let ?m2 = "m[i := Some (?p2 @ c @ CHR '':'' # f @ CHR '':'' # ob)]"
  let ?m3 = "m[i := Some (?p3 @ f @ CHR '':'' # ob)]"
  let ?m4 = "m[i := Some (?p4 @ ob)]"
  have n1: "vfscore_fstab_next_volume_arg (Some (i, 0)) m = (Some (i, 0), Some (i, length ?p1), ?m1)"
    using next_arg_sep [of i m "[]" a] i s c n by (simp add: buf_of_Some)
  have n2: "vfscore_fstab_next_volume_arg (Some (i, length ?p1)) ?m1 = (Some (i, length ?p1), Some (i, length ?p2), ?m2)"
    using next_arg_sep [of i ?m1 ?p1 b] i c n by (simp add: buf_of_update)
  have n3: "vfscore_fstab_next_volume_arg (Some (i, length ?p2)) ?m2 = (Some (i, length ?p2), Some (i, length ?p3), ?m3)"
    using next_arg_sep [of i ?m2 ?p2 c] i c n by (simp add: buf_of_update)
  have n4: "vfscore_fstab_next_volume_arg (Some (i, length ?p3)) ?m3 = (Some (i, length ?p3), Some (i, length ?p4), ?m4)"
    using next_arg_sep [of i ?m3 ?p3 f] i c n by (simp add: buf_of_update)
  have n5: "vfscore_fstab_next_volume_arg (Some (i, length ?p4)) ?m4 = (Some (i, length ?p4), None, ?m4)"
    using next_arg_last [of ?m4 i ?p4 ob] i c n by (simp add: buf_of_update)
  have d1: "cstr_at (?p4 @ ob) 0 = a"
    using cstr_at_tok [of a "[]"] n by simp
  have d2: "cstr_at (?p4 @ ob) (length ?p1) = b"
    using cstr_at_tok [of b ?p1] n by simp
  have d3: "cstr_at (?p4 @ ob) (length ?p2) = c"
    using cstr_at_tok [of c ?p2] n by simp
  have d4: "cstr_at (?p4 @ ob) (length ?p3) = f"
    using cstr_at_tok [of f ?p3] n by simp
  have k4: "(peek (?p4 @ ob) (length ?p3) = NUL) = (f = [])"
    using peek_tok [of f ?p3] n by simp
  have d5: "cstr_at (?p4 @ ob) (length ?p4) = ob"
    using cstr_at_last [of ob ?p4] n by simp
  have k5: "(peek (?p4 @ ob) (length ?p4) = NUL) = (ob = [])"
    using peek_last [of ob ?p4] n by simp
  show ?thesis
    using i d1 d2 d3 d4 d5 k4 k5
    by (simp add: vfscore_fstab_fetch_volume_args_def n1 [simplified] n2 [simplified] n3 [simplified] n4 [simplified] n5 [simplified]
        volume_args_def deref_def buf_of_update)
qed

lemma fetch_shape6:
  assumes i: "i < length m" and s: "m ! i = Some (a @ CHR '':'' # b @ CHR '':'' # c @ CHR '':'' # f @ CHR '':'' # ob @ CHR '':'' # r)"
    and c: "CHR '':'' \<notin> set a" "CHR '':'' \<notin> set b" "CHR '':'' \<notin> set c" "CHR '':'' \<notin> set f" "CHR '':'' \<notin> set ob"
    and n: "NUL \<notin> set a" "NUL \<notin> set b" "NUL \<notin> set c" "NUL \<notin> set f" "NUL \<notin> set ob"
  shows "\<exists>vv'. vfscore_fstab_fetch_volume_args (Some (i, 0)) vv m =
            Inr (vv', m[i := Some (a @ NUL # b @ NUL # c @ NUL # f @ NUL # ob @ NUL # r)]) \<and>
          volume_args (m[i := Some (a @ NUL # b @ NUL # c @ NUL # f @ NUL # ob @ NUL # r)]) vv' =
            (Some a, Some b, Some c, (if f = [] then 0 else word_of_int (strtol f 0)),
             (if ob = [] then None else Some ob))"
proof -
  let ?p1 = "a @ [NUL]"
  let ?p2 = "?p1 @ b @ [NUL]"
  let ?p3 = "?p2 @ c @ [NUL]"
  let ?p4 = "?p3 @ f @ [NUL]"
  let ?p5 = "?p4 @ ob @ [NUL]"
  let ?m1 = "m[i := Some (?p1 @ b @ CHR '':'' # c @ CHR '':'' # f @ CHR '':'' # ob @ CHR '':'' # r)]"
  let ?m2 = "m[i := Some (?p2 @ c @ CHR '':'' # f @ CHR '':'' # ob @ CHR '':'' # r)]"
  let ?m3 = "m[i := Some (?p3 @ f @ CHR '':'' # ob @ CHR '':'' # r)]"
  let ?m4 = "m[i := Some (?p4 @ ob @ CHR '':'' # r)]"
  let ?m5 = "m[i := Some (?p5 @ r)]"
  have n1: "vfscore_fstab_next_volume_arg (Some (i, 0)) m = (Some (i, 0), Some (i, length ?p1), ?m1)"
    using next_arg_sep [of i m "[]" a] i s c n by (simp add: buf_of_Some)
  have n2: "vfscore_fstab_next_volume_arg (Some (i, length ?p1)) ?m1 = (Some (i, length ?p1), Some (i, length ?p2), ?m2)"
    using next_arg_sep [of i ?m1 ?p1 b] i c n by (simp add: buf_of_update)
  have n3: "vfscore_fstab_next_volume_arg (Some (i, length ?p2)) ?m2 = (Some (i, length ?p2), Some (i, length ?p3), ?m3)"
    using next_arg_sep [of i ?m2 ?p2 c] i c n by (simp add: buf_of_update)
  have n4: "vfscore_fstab_next_volume_arg (Some (i, length ?p3)) ?m3 = (Some (i, length ?p3), Some (i, length ?p4), ?m4)"
    using next_arg_sep [of i ?m3 ?p3 f] i c n by (simp add: buf_of_update)
  have n5: "vfscore_fstab_next_volume_arg (Some (i, length ?p4)) ?m4 = (Some (i, length ?p4), Some (i, length ?p5), ?m5)"
    using next_arg_sep [of i ?m4 ?p4 ob] i c n by (simp add: buf_of_update)
  have d1: "cstr_at (?p5 @ r) 0 = a"
    using cstr_at_tok [of a "[]"] n by simp
  have d2: "cstr_at (?p5 @ r) (length ?p1) = b"
    using cstr_at_tok [of b ?p1] n by simp
  have d3: "cstr_at (?p5 @ r) (length ?p2) = c"
    using cstr_at_tok [of c ?p2] n by simp
  have d4: "cstr_at (?p4 @ ob @ CHR '':'' # r) (length ?p3) = f"
    using cstr_at_tok [of f ?p3] n by simp
  have k4: "(peek (?p4 @ ob @ CHR '':'' # r) (length ?p3) = NUL) = (f = [])"
    using peek_tok [of f ?p3] n by simp
  have d5: "cstr_at (?p5 @ r) (length ?p4) = ob"
    using cstr_at_tok [of ob ?p4] n by simp
  have k5: "(peek (?p5 @ r) (length ?p4) = NUL) = (ob = [])"
    using peek_tok [of ob ?p4] n by simp
  show ?thesis
    using i d1 d2 d3 d4 d5 k4 k5
    by (simp add: vfscore_fstab_fetch_volume_args_def n1 [simplified] n2 [simplified] n3 [simplified] n4 [simplified] n5 [simplified]
        volume_args_def deref_def buf_of_update)
qed

lemma fetch_fields:
  assumes i: "i < length m" and s: "m ! i = Some s" and n: "NUL \<notin> set s"
  shows "(case fields s of
            a # b # c # f # rest \<Rightarrow>
              (\<exists>vv' m'. vfscore_fstab_fetch_volume_args (Some (i, 0)) vv m = Inr (vv', m') \<and>
                 volume_args m' vv' =
                   (Some a, Some b, Some c, (if f = [] then 0 else word_of_int (strtol f 0)),
                    (case rest of [] \<Rightarrow> None | ob # _ \<Rightarrow> if ob = [] then None else Some ob)))
          | [a, b, c] \<Rightarrow>
              (\<exists>vv' m'. vfscore_fstab_fetch_volume_args (Some (i, 0)) vv m = Inr (vv', m') \<and>
                 map_option (deref m') (sdev vv') = Some a \<and>
                 map_option (deref m') (path vv') = Some b \<and>
                 map_option (deref m') (drv vv') = Some c \<and>
                 flags vv' = flags vv \<and> opts vv' = opts vv)
          | [a, b] \<Rightarrow>
              vfscore_fstab_fetch_volume_args (Some (i, 0)) vv m = Inl (UK_ASSERT_failed ''vv->drv'')
          | _ \<Rightarrow>
              vfscore_fstab_fetch_volume_args (Some (i, 0)) vv m = Inl (UK_ASSERT_failed ''vv->path''))"
proof (rule fields_cases [of s])
  assume "CHR '':'' \<notin> set s" "fields s = [s]"
  then show ?thesis
    using fetch_shape1 [OF i s] n by simp
next
  fix a r1
  assume s1: "s = a @ CHR '':'' # r1" "CHR '':'' \<notin> set a" "fields s = a # fields r1"
  show ?thesis
  proof (rule fields_cases [of r1])
    assume "CHR '':'' \<notin> set r1" "fields r1 = [r1]"
    then show ?thesis
      using fetch_shape2 [of i m a r1 vv] i s n s1 by simp
  next
    fix b r2
    assume s2: "r1 = b @ CHR '':'' # r2" "CHR '':'' \<notin> set b" "fields r1 = b # fields r2"
    show ?thesis
    proof (rule fields_cases [of r2])
      assume "CHR '':'' \<notin> set r2" "fields r2 = [r2]"
      then show ?thesis
        using fetch_shape3 [of i m a b r2 vv] i s n s1 s2 by auto
    next
      fix c r3
      assume s3: "r2 = c @ CHR '':'' # r3" "CHR '':'' \<notin> set c" "fields r2 = c # fields r3"
      show ?thesis
      proof (rule fields_cases [of r3])
        assume "CHR '':'' \<notin> set r3" "fields r3 = [r3]"
        then show ?thesis
          using fetch_shape4 [of i m a b c r3 vv] i s n s1 s2 s3 by auto
      next
        fix f r4
        assume s4: "r3 = f @ CHR '':'' # r4" "CHR '':'' \<notin> set f" "fields r3 = f # fields r4"
        show ?thesis
        proof (rule fields_cases [of r4])
          assume "CHR '':'' \<notin> set r4" "fields r4 = [r4]"
          then show ?thesis
            using fetch_shape5 [of i m a b c f r4 vv] i s n s1 s2 s3 s4 by auto
        next
          fix ob r5
          assume s5: "r4 = ob @ CHR '':'' # r5" "CHR '':'' \<notin> set ob" "fields r4 = ob # fields r5"
          then show ?thesis
            using fetch_shape6 [of i m a b c f ob r5 vv] i s n s1 s2 s3 s4 by auto
        qed
      qed
    qed
  qed
qed

lemma long_fields:
  assumes "3 < length (fields s)"
  obtains a b c f rest where "fields s = a # b # c # f # rest"
proof -
  from assms obtain a l1 where 1: "fields s = a # l1" "2 < length l1" by (cases "fields s") auto
  then obtain b l2 where 2: "l1 = b # l2" "1 < length l2" by (cases l1) auto
  then obtain c l3 where 3: "l2 = c # l3" "0 < length l3" by (cases l2) auto
  then obtain f rest where "l3 = f # rest" by (cases l3) auto
  with 1 2 3 that show ?thesis by blast
qed

section \<open>What the run does to the mount table\<close>

lemma separators_cleared_refl: "separators_cleared m m"
  by (simp add: separators_cleared_def list_all2_refl option.rel_refl)

lemma separators_cleared_trans:
  assumes "separators_cleared a b" "separators_cleared b c"
  shows "separators_cleared a c"
proof -
  let ?r = "\<lambda>c c'. c' = c \<or> (c = CHR '':'' \<and> c' = NUL)"
  have r: "\<And>x y z. ?r x y \<Longrightarrow> ?r y z \<Longrightarrow> ?r x z" by auto
  have l: "\<And>x y z. list_all2 ?r x y \<Longrightarrow> list_all2 ?r y z \<Longrightarrow> list_all2 ?r x z"
    by (rule list_all2_trans [where ?P1.0 = ?r and ?P2.0 = ?r]) (use r in blast)+
  have ro: "\<And>x y z. rel_option (list_all2 ?r) x y \<Longrightarrow> rel_option (list_all2 ?r) y z
      \<Longrightarrow> rel_option (list_all2 ?r) x z"
    subgoal for x y z by (cases x; cases y; cases z) (auto intro: l)
    done
  show ?thesis
    using assms unfolding separators_cleared_def
    by (rule list_all2_trans [rotated]) (use ro in blast)
qed

lemma separators_cleared_update:
  assumes "i < length m" "m ! i = Some b" "p < length b" "b ! p = CHR '':''"
  shows "separators_cleared m (m[i := Some (b[p := NUL])])"
  using assms
  by (auto simp: separators_cleared_def list_all2_conv_all_nth nth_list_update option.rel_refl)

lemma next_arg_cleared:
  assumes "vfscore_fstab_next_volume_arg pos m = (t, pos', m')"
  shows "separators_cleared m m'"
proof (cases pos)
  case None
  with assms show ?thesis
    by (simp add: vfscore_fstab_next_volume_arg_def separators_cleared_refl)
next
  case (Some ik)
  obtain i k where ik: "ik = (i, k)" by (cases ik)
  show ?thesis
  proof (cases "strchr (buf_of m i) k CHR '':''")
    case None
    with assms Some ik show ?thesis
      by (simp add: vfscore_fstab_next_volume_arg_def separators_cleared_refl)
  next
    case (Some p)
    from strchr_SomeD [OF Some] have p: "p < length (buf_of m i)" "buf_of m i ! p = CHR '':''"
      by simp_all
    from buf_of_nonempty [OF p(1)] have i: "i < length m" "m ! i = Some (buf_of m i)"
      by simp_all
    from assms \<open>pos = Some ik\<close> ik Some p have "m' = m[i := Some ((buf_of m i)[p := NUL])]"
      by (simp add: vfscore_fstab_next_volume_arg_def peek_def)
    with separators_cleared_update [OF i p] show ?thesis by simp
  qed
qed

lemma fetch_cleared:
  assumes "vfscore_fstab_fetch_volume_args v vv m = Inr (vv', m')"
  shows "separators_cleared m m'"
proof -
  obtain t1 p1 m1 where n1: "vfscore_fstab_next_volume_arg v m = (t1, p1, m1)"
    by (cases "vfscore_fstab_next_volume_arg v m") auto
  obtain t2 p2 m2 where n2: "vfscore_fstab_next_volume_arg p1 m1 = (t2, p2, m2)"
    by (cases "vfscore_fstab_next_volume_arg p1 m1") auto
  obtain t3 p3 m3 where n3: "vfscore_fstab_next_volume_arg p2 m2 = (t3, p3, m3)"
    by (cases "vfscore_fstab_next_volume_arg p2 m2") auto
  obtain t4 p4 m4 where n4: "vfscore_fstab_next_volume_arg p3 m3 = (t4, p4, m4)"
    by (cases "vfscore_fstab_next_volume_arg p3 m3") auto
  obtain t5 p5 m5 where n5: "vfscore_fstab_next_volume_arg p4 m4 = (t5, p5, m5)"
    by (cases "vfscore_fstab_next_volume_arg p4 m4") auto
  have c3: "separators_cleared m m3"
    using next_arg_cleared [OF n1] next_arg_cleared [OF n2] next_arg_cleared [OF n3]
    by (blast intro: separators_cleared_trans)
  have c5: "separators_cleared m m5"
    using c3 next_arg_cleared [OF n4] next_arg_cleared [OF n5]
    by (blast intro: separators_cleared_trans)
  from assms have "m' = m3 \<or> m' = m5"
    by (auto simp: vfscore_fstab_fetch_volume_args_def n1 n2 n3 n4 n5 Let_def split: if_splits)
  with c3 c5 show ?thesis by auto
qed

lemma next_arg_frame:
  assumes "vfscore_fstab_next_volume_arg pos m = (t, pos', m')" "pos = None \<or> (\<exists>k. pos = Some (i, k))"
  shows "length m' = length m \<and> drop (Suc i) m' = drop (Suc i) m \<and>
         (pos' = None \<or> (\<exists>k. pos' = Some (i, k)))"
  using assms
  by (auto simp: vfscore_fstab_next_volume_arg_def split: option.splits if_splits)

lemma fetch_frame:
  assumes "vfscore_fstab_fetch_volume_args v vv m = Inr (vv', m')" "v = None \<or> (\<exists>k. v = Some (i, k))"
  shows "length m' = length m \<and> drop (Suc i) m' = drop (Suc i) m"
proof -
  obtain t1 p1 m1 where n1: "vfscore_fstab_next_volume_arg v m = (t1, p1, m1)"
    by (cases "vfscore_fstab_next_volume_arg v m") auto
  obtain t2 p2 m2 where n2: "vfscore_fstab_next_volume_arg p1 m1 = (t2, p2, m2)"
    by (cases "vfscore_fstab_next_volume_arg p1 m1") auto
  obtain t3 p3 m3 where n3: "vfscore_fstab_next_volume_arg p2 m2 = (t3, p3, m3)"
    by (cases "vfscore_fstab_next_volume_arg p2 m2") auto
  obtain t4 p4 m4 where n4: "vfscore_fstab_next_volume_arg p3 m3 = (t4, p4, m4)"
    by (cases "vfscore_fstab_next_volume_arg p3 m3") auto
  obtain t5 p5 m5 where n5: "vfscore_fstab_next_volume_arg p4 m4 = (t5, p5, m5)"
    by (cases "vfscore_fstab_next_volume_arg p4 m4") auto
  note f1 = next_arg_frame [OF n1 assms(2)]
  note f2 = next_arg_frame [OF n2, of i] 
  note f3 = next_arg_frame [OF n3, of i]
  note f4 = next_arg_frame [OF n4, of i]
  note f5 = next_arg_frame [OF n5, of i]
  have c3: "length m3 = length m \<and> drop (Suc i) m3 = drop (Suc i) m \<and> (p3 = None \<or> (\<exists>k. p3 = Some (i, k)))"
    using f1 f2 f3 by presburger
  have c5: "length m5 = length m \<and> drop (Suc i) m5 = drop (Suc i) m"
    using c3 f4 f5 by presburger
  from assms have "m' = m3 \<or> m' = m5"
    by (auto simp: vfscore_fstab_fetch_volume_args_def n1 n2 n3 n4 n5 Let_def split: if_splits)
  with c3 c5 show ?thesis by auto
qed

lemma mount_state: "mount e a st = (rc, st') \<Longrightarrow> fstab st' = fstab st \<and> trace st' = trace st @ [Mount a]"
  by (auto simp: mount_def)

lemma mount_volume_state:
  "vfscore_mount_volume e vv st = (rc, st') \<Longrightarrow>
     fstab st' = fstab st \<and> trace st' = trace st @ [Mount (volume_args (fstab st) vv)]"
  by (auto simp: vfscore_mount_volume_def mount_def)

lemma do_mount_initrd_fstab:
  "do_mount_initrd e a l p st = Inr (rc, st') \<Longrightarrow> fstab st' = fstab st"
  by (auto simp: do_mount_initrd_def mount_def ukcpio_extract_def split: option.splits if_splits)

lemma mount_initrd_volume_fstab:
  "vfscore_mount_initrd_volume e vv st = Inr (rc, st') \<Longrightarrow> fstab st' = fstab st"
  by (auto simp: vfscore_mount_initrd_volume_def ukplat_memregion_find_initrd0_def
      split: prod.splits if_splits dest!: do_mount_initrd_fstab)

lemma rootfs_fstab:
  "vfscore_automount_rootfs cfg e st = Inr (rc, st') \<Longrightarrow> fstab st' = fstab st"
  by (auto simp: vfscore_automount_rootfs_def Let_def
      split: if_splits option.splits dest!: do_mount_initrd_fstab mount_initrd_volume_fstab mount_volume_state)

lemma fstab_entry_fetch:
  assumes "vfscore_automount_fstab_entry cfg e i vv st = Inr (rc, vv', st')"
  shows "\<exists>m1. vfscore_fstab_fetch_volume_args (slot (fstab st) i) vv (fstab st) = Inr (vv', m1) \<and>
           fstab st' = m1"
  using assms
  by (auto simp: vfscore_automount_fstab_entry_def Let_def
      split: sum.splits prod.splits if_splits
      dest!: mount_initrd_volume_fstab mount_volume_state)

lemma fstab_entry_cleared:
  assumes "vfscore_automount_fstab_entry cfg e i vv st = Inr (rc, vv', st')"
  shows "separators_cleared (fstab st) (fstab st')"
  using fstab_entry_fetch [OF assms] fetch_cleared by blast

lemma fstab_entry_frame:
  assumes "vfscore_automount_fstab_entry cfg e i vv st = Inr (rc, vv', st')"
  shows "length (fstab st') = length (fstab st) \<and>
         drop (Suc i) (fstab st') = drop (Suc i) (fstab st)"
  using fstab_entry_fetch [OF assms] fetch_frame [of "slot (fstab st) i" vv "fstab st" vv' _ i]
    slot_cases [of "fstab st" i]
  by auto

lemma fstab_loop_cleared:
  "vfscore_automount_fstab_loop cfg e n i vv st = Inr (rc, st') \<Longrightarrow>
     separators_cleared (fstab st) (fstab st')"
proof (induction cfg e n i vv st rule: vfscore_automount_fstab_loop.induct)
  case (1 cfg e n i vv st)
  show ?case
  proof (cases "i < n \<and> slot (fstab st) i \<noteq> None")
    case False
    with "1.prems" show ?thesis
      by (auto simp: separators_cleared_refl vfscore_automount_fstab_loop.simps [of cfg e n i])
  next
    case True
    with "1.prems" obtain r vv1 st1 where
      en: "vfscore_automount_fstab_entry cfg e i vv st = Inr (r, vv1, st1)"
      by (auto simp: vfscore_automount_fstab_loop.simps [of cfg e n i] split: sum.splits)
    show ?thesis
    proof (cases "r = 0")
      case False
      with "1.prems" True en have "st' = st1"
        by (simp add: vfscore_automount_fstab_loop.simps [of cfg e n i])
      with fstab_entry_cleared [OF en] show ?thesis by simp
    next
      case r0: True
      with "1.prems" True en have
        "vfscore_automount_fstab_loop cfg e n (i + 1) vv1 st1 = Inr (rc, st')"
        by (simp add: vfscore_automount_fstab_loop.simps [of cfg e n i])
      from "1.IH" [OF True en refl refl _ this] r0
      have "separators_cleared (fstab st1) (fstab st')" by simp
      with fstab_entry_cleared [OF en] show ?thesis
        by (blast intro: separators_cleared_trans)
    qed
  qed
qed

lemma automount_cleared:
  assumes "vfscore_automount cfg e vv0 st = Inr (rc, st')"
  shows "separators_cleared (fstab st) (fstab st')"
proof -
  from assms obtain r1 st1 where r: "vfscore_automount_rootfs cfg e st = Inr (r1, st1)"
    by (auto simp: vfscore_automount_def split: sum.splits)
  from rootfs_fstab [OF r] have f: "fstab st1 = fstab st" .
  show ?thesis
  proof (cases "r1 < 0")
    case True
    with assms r f show ?thesis
      by (simp add: vfscore_automount_def separators_cleared_refl)
  next
    case False
    with assms r have "vfscore_automount_fstab_volumes cfg e vv0 st1 = Inr (rc, st')"
      by (simp add: vfscore_automount_def)
    then show ?thesis
      using f fstab_loop_cleared [of cfg e "length (fstab st1)" 0 vv0 st1 rc st']
      by (auto simp: vfscore_automount_fstab_volumes_def separators_cleared_refl split: if_splits)
  qed
qed

section \<open>The loop over the table\<close>

lemma fstab_loop_prefix:
  "fstab_prefix cfg e k vv0 st0 = Some (vv, st) \<Longrightarrow> k \<le> n \<Longrightarrow>
     vfscore_automount_fstab_loop cfg e n 0 vv0 st0 = vfscore_automount_fstab_loop cfg e n k vv st"
proof (induction k arbitrary: vv st)
  case 0
  then show ?case by simp
next
  case (Suc k)
  from Suc.prems(1) obtain vv1 st1 where
    p: "fstab_prefix cfg e k vv0 st0 = Some (vv1, st1)"
    and s: "slot (fstab st1) k \<noteq> None"
    and en: "vfscore_automount_fstab_entry cfg e k vv1 st1 = Inr (0, vv, st)"
    by (auto split: option.splits if_splits sum.splits)
  from Suc.IH [OF p] Suc.prems(2)
  have "vfscore_automount_fstab_loop cfg e n 0 vv0 st0 = vfscore_automount_fstab_loop cfg e n k vv1 st1"
    by simp
  also have "\<dots> = vfscore_automount_fstab_loop cfg e n (k + 1) vv st"
    using s en Suc.prems(2) by (subst vfscore_automount_fstab_loop.simps) simp
  finally show ?case by simp
qed

lemma fstab_prefix_frame:
  "fstab_prefix cfg e k vv0 st0 = Some (vv, st) \<Longrightarrow>
     length (fstab st) = length (fstab st0) \<and> drop k (fstab st) = drop k (fstab st0)"
proof (induction k arbitrary: vv st)
  case 0
  then show ?case by simp
next
  case (Suc k)
  from Suc.prems(1) obtain vv1 st1 where
    p: "fstab_prefix cfg e k vv0 st0 = Some (vv1, st1)"
    and en: "vfscore_automount_fstab_entry cfg e k vv1 st1 = Inr (0, vv, st)"
    by (auto split: option.splits if_splits sum.splits)
  from Suc.IH [OF p] have ih: "length (fstab st1) = length (fstab st0)"
    "drop k (fstab st1) = drop k (fstab st0)" by simp_all
  from ih(2) have "drop 1 (drop k (fstab st1)) = drop 1 (drop k (fstab st0))" by simp
  then have "drop (Suc k) (fstab st1) = drop (Suc k) (fstab st0)" by simp
  with fstab_entry_frame [OF en] ih(1) show ?case by simp
qed

lemma fstab_entry_generic_trace:
  assumes "vfscore_automount_fstab_entry cfg e i vv st = Inr (rc, vv', st')"
    "\<not> (LIBUKCPIO cfg \<and> LIBRAMFS cfg)"
  shows "trace st' = trace st @ [Mount (volume_args (fstab st') vv')]"
  using assms
  by (auto simp: vfscore_automount_fstab_entry_def Let_def vfscore_mount_volume_def mount_def
      split: sum.splits prod.splits)

lemma fstab_prefix_generic_trace:
  "fstab_prefix cfg e k vv0 st0 = Some (vv, st) \<Longrightarrow> \<not> (LIBUKCPIO cfg \<and> LIBRAMFS cfg) \<Longrightarrow>
     \<exists>ms. length ms = k \<and> trace st = trace st0 @ map Mount ms"
proof (induction k arbitrary: vv st)
  case 0
  then show ?case by simp
next
  case (Suc k)
  from Suc.prems(1) obtain vv1 st1 where
    p: "fstab_prefix cfg e k vv0 st0 = Some (vv1, st1)"
    and en: "vfscore_automount_fstab_entry cfg e k vv1 st1 = Inr (0, vv, st)"
    by (auto split: option.splits if_splits sum.splits)
  from Suc.IH [OF p Suc.prems(2)] obtain ms where
    ms: "length ms = k" "trace st1 = trace st0 @ map Mount ms" by blast
  from fstab_entry_generic_trace [OF en Suc.prems(2)] obtain a where
    "trace st = trace st1 @ [Mount a]" by blast
  with ms have "length (ms @ [a]) = Suc k \<and> trace st = trace st0 @ map Mount (ms @ [a])"
    by simp
  then show ?case by blast
qed

lemma mount_initrd_volume_trace:
  "vfscore_mount_initrd_volume e vv st = Inr (rc, st') \<Longrightarrow>
     \<exists>b. b \<noteq> [] \<and> trace st' = trace st @ b"
  by (auto simp: vfscore_mount_initrd_volume_def ukplat_memregion_find_initrd0_def
      do_mount_initrd_def mount_def ukcpio_extract_def
      split: prod.splits if_splits option.splits)

lemma fstab_entry_trace:
  assumes "vfscore_automount_fstab_entry cfg e i vv st = Inr (rc, vv', st')"
  shows "\<exists>b. b \<noteq> [] \<and> trace st' = trace st @ b"
proof -
  from fstab_entry_fetch [OF assms] obtain m1 where
    f: "vfscore_fstab_fetch_volume_args (slot (fstab st) i) vv (fstab st) = Inr (vv', m1)"
    by blast
  let ?st1 = "st\<lparr>fstab := m1\<rparr>"
  show ?thesis
  proof (cases "LIBUKCPIO cfg \<and> LIBRAMFS cfg \<and> drv_is_initrd m1 vv'")
    case True
    with assms f have "vfscore_mount_initrd_volume e vv' ?st1 = Inr (rc, st')"
      by (auto simp: vfscore_automount_fstab_entry_def Let_def split: sum.splits)
    from mount_initrd_volume_trace [OF this] show ?thesis by simp
  next
    case False
    with assms f have "vfscore_mount_volume e vv' ?st1 = (rc, st')"
      by (auto simp: vfscore_automount_fstab_entry_def Let_def split: sum.splits prod.splits)
    from mount_volume_state [OF this] show ?thesis by simp
  qed
qed

lemma fstab_prefix_trace:
  "fstab_prefix cfg e k vv0 st0 = Some (vv, st) \<Longrightarrow>
     \<exists>bs. length bs = k \<and> [] \<notin> set bs \<and> trace st = trace st0 @ concat bs"
proof (induction k arbitrary: vv st)
  case 0
  then show ?case by simp
next
  case (Suc k)
  from Suc.prems(1) obtain vv1 st1 where
    p: "fstab_prefix cfg e k vv0 st0 = Some (vv1, st1)"
    and en: "vfscore_automount_fstab_entry cfg e k vv1 st1 = Inr (0, vv, st)"
    by (auto split: option.splits if_splits sum.splits)
  from Suc.IH [OF p] obtain bs where
    bs: "length bs = k" "[] \<notin> set bs" "trace st1 = trace st0 @ concat bs" by blast
  from fstab_entry_trace [OF en] obtain b where
    "b \<noteq> []" "trace st = trace st1 @ b" by blast
  with bs have "length (bs @ [b]) = Suc k \<and> [] \<notin> set (bs @ [b]) \<and>
      trace st = trace st0 @ concat (bs @ [b])"
    by auto
  then show ?case by blast
qed

lemma automount_negative_root_status:
  "vfscore_automount_rootfs cfg e st = Inr (rc, st1) \<Longrightarrow> rc < 0 \<Longrightarrow>
     vfscore_automount cfg e vv0 st = Inr (rc, st1)"
  by (simp add: vfscore_automount_def)

section \<open>The properties\<close>

text \<open>
  C1. The claim: whenever the root resolver returns a status other than 0, the entry point
  returns that status and the table volumes are neither parsed nor mounted. The entry point
  tests \<open>rc < 0\<close>, while the resolver passes on the status of \<^verbatim>\<open>mount\<close> unchanged and the
  loop over the table treats every status other than 0 as a failure. With a build that
  mounts the root through the generic path and a \<^verbatim>\<open>mount\<close> that answers 1 for the root,
  the resolver returns 1, and the entry point goes on: it parses the table entry (its
  separators become NUL), mounts it and returns 0.
\<close>

theorem positive_root_status_runs_fstab:
  "vfscore_automount_rootfs cfg_example (env_mount_returns 0 1) st_one =
     Inr (1, \<lparr>fstab = [Some ''sda0:/mnt:ext4:0:rw''],
              trace = [Mount (Some [], Some ''/'', Some ''ramfs'', 0, Some [])]\<rparr>) \<and>
   vfscore_automount cfg_example (env_mount_returns 0 1) vv_stale st_one =
     Inr (0, \<lparr>fstab = [Some (''sda0'' @ NUL # ''/mnt'' @ NUL # ''ext4'' @ NUL # ''0'' @ NUL # ''rw'')],
              trace = [Mount (Some [], Some ''/'', Some ''ramfs'', 0, Some []),
                       Mount (Some ''sda0'', Some ''/mnt'', Some ''ext4'', 0, Some ''rw'')]\<rparr>)"
  by code_simp

text \<open>
  C2. The claim: an entry of exactly three fields gives flags 0 and no options, whatever
  earlier entries left behind. The parser returns as soon as it sees that nothing follows
  the driver, before it assigns \<open>flags\<close> and \<open>opts\<close>, and the loop reuses one descriptor for
  every entry. In the table below the second entry has three fields and is mounted with
  the flags \<open>0x10\<close> and the options \<^verbatim>\<open>ro\<close> of the first.
\<close>

theorem three_fields_keep_previous_flags_and_options:
  "vfscore_automount_fstab_volumes cfg_example env_ok vv_stale st_two =
     Inr (0, \<lparr>fstab = [Some (''sdb1'' @ NUL # ''/data'' @ NUL # ''fat'' @ NUL # ''0x10'' @ NUL # ''ro''),
                       Some (''sda0'' @ NUL # ''/mnt'' @ NUL # ''ext4'')],
              trace = [Mount (Some ''sdb1'', Some ''/data'', Some ''fat'', 0x10, Some ''ro''),
                       Mount (Some ''sda0'', Some ''/mnt'', Some ''ext4'', 0x10, Some ''ro'')]\<rparr>)"
  by code_simp

text \<open>
  C3. The claim: the raw strings of the mount table are byte for byte the same before and
  after a run. They are not: the tokenizer ends each token in place, so the run below
  leaves \<^verbatim>\<open>sda0\0/mnt\0ext4\00\0rw\<close> where the table held \<^verbatim>\<open>sda0:/mnt:ext4:0:rw\<close>.
\<close>

theorem automount_writes_table_counterexample:
  "vfscore_automount cfg_example env_ok vv_stale st_one =
     Inr (0, \<lparr>fstab = [Some (''sda0'' @ NUL # ''/mnt'' @ NUL # ''ext4'' @ NUL # ''0'' @ NUL # ''rw'')],
              trace = [Mount (Some [], Some ''/'', Some ''ramfs'', 0, Some []),
                       Mount (Some ''sda0'', Some ''/mnt'', Some ''ext4'', 0, Some ''rw'')]\<rparr>) \<and>
   [Some (''sda0'' @ NUL # ''/mnt'' @ NUL # ''ext4'' @ NUL # ''0'' @ NUL # ''rw'')] \<noteq> fstab st_one"
  by code_simp

text \<open>
  C3, as amended. A run that returns writes to the mount table only by overwriting
  separators with NUL: afterwards the table has the same slots, every buffer has its
  length, and every byte is the byte it was or a NUL in the place of a separator.
\<close>

theorem automount_only_clears_separators:
  "vfscore_automount cfg e vv0 st = Inr (rc, st') \<Longrightarrow> separators_cleared (fstab st) (fstab st')"
  by (rule automount_cleared)

theorem automount_only_clears_separators_witness:
  "vfscore_automount cfg_example env_ok vv_stale st_one =
     Inr (0, \<lparr>fstab = [Some (''sda0'' @ NUL # ''/mnt'' @ NUL # ''ext4'' @ NUL # ''0'' @ NUL # ''rw'')],
              trace = [Mount (Some [], Some ''/'', Some ''ramfs'', 0, Some []),
                       Mount (Some ''sda0'', Some ''/mnt'', Some ''ext4'', 0, Some ''rw'')]\<rparr>) \<and>
   separators_cleared [Some ''sda0:/mnt:ext4:0:rw'']
     [Some (''sda0'' @ NUL # ''/mnt'' @ NUL # ''ext4'' @ NUL # ''0'' @ NUL # ''rw'')]"
proof -
  have h: "vfscore_automount cfg_example env_ok vv_stale st_one =
     Inr (0, \<lparr>fstab = [Some (''sda0'' @ NUL # ''/mnt'' @ NUL # ''ext4'' @ NUL # ''0'' @ NUL # ''rw'')],
              trace = [Mount (Some [], Some ''/'', Some ''ramfs'', 0, Some []),
                       Mount (Some ''sda0'', Some ''/mnt'', Some ''ext4'', 0, Some ''rw'')]\<rparr>)"
    by code_simp
  from automount_only_clears_separators [OF h] h show ?thesis
    by (simp add: st_one_def)
qed

text \<open>
  C4. Parsing \<^verbatim>\<open>sda0:/mnt:ext4:0x10:ro\<close> gives the source \<^verbatim>\<open>sda0\<close>, the path \<^verbatim>\<open>/mnt\<close>, the
  driver \<^verbatim>\<open>ext4\<close>, the flags \<open>0x10\<close> (read as hexadecimal because of the prefix) and the
  options \<^verbatim>\<open>ro\<close>, whatever the descriptor held before.
\<close>

theorem parse_five_fields:
  "parse_entry ''sda0:/mnt:ext4:0x10:ro'' vv =
     Inr (Some ''sda0'', Some ''/mnt'', Some ''ext4'', 0x10, Some ''ro'')"
  using fetch_fields [of 0 "[Some ''sda0:/mnt:ext4:0x10:ro'']" "''sda0:/mnt:ext4:0x10:ro''" vv]
  apply (simp add: parse_entry_def slot_def)
  apply (auto simp: strtol_def strtol_sign_def strtol_base_def isspace_def digit_of_def LONG_MAX_def)
  done

text \<open>
  C5. For every entry whose fourth field is present and empty the parsed flags are 0; for
  every entry whose fifth field is present and empty the parsed options are the null
  pointer, not an empty string; and \<^verbatim>\<open>sda0:/mnt:ext4::ro\<close> gives flags 0 and options
  \<^verbatim>\<open>ro\<close>. The entry is any string without NUL in any slot of any table.
\<close>

theorem empty_flags_and_options:
  assumes "i < length m" "m ! i = Some s" "NUL \<notin> set s"
  shows "(3 < length (fields s) \<and> fields s ! 3 = [] \<longrightarrow>
            (\<exists>vv' m'. vfscore_fstab_fetch_volume_args (slot m i) vv m = Inr (vv', m') \<and>
                       flags vv' = 0)) \<and>
         (4 < length (fields s) \<and> fields s ! 4 = [] \<longrightarrow>
            (\<exists>vv' m'. vfscore_fstab_fetch_volume_args (slot m i) vv m = Inr (vv', m') \<and>
                       opts vv' = None)) \<and>
         parse_entry ''sda0:/mnt:ext4::ro'' vv =
           Inr (Some ''sda0'', Some ''/mnt'', Some ''ext4'', 0, Some ''ro'')"
proof (intro conjI impI)
  assume h: "3 < length (fields s) \<and> fields s ! 3 = []"
  then obtain a b c f rest where fs: "fields s = a # b # c # f # rest"
    using long_fields by blast
  with h have "f = []" by simp
  with fetch_fields [OF assms, of vv] fs slot_Some [OF assms(1,2)]
  show "\<exists>vv' m'. vfscore_fstab_fetch_volume_args (slot m i) vv m = Inr (vv', m') \<and> flags vv' = 0"
    by (auto simp: volume_args_def)
next
  assume h: "4 < length (fields s) \<and> fields s ! 4 = []"
  then have "3 < length (fields s)" by simp
  then obtain a b c f rest where fs: "fields s = a # b # c # f # rest"
    using long_fields by blast
  with h obtain rest' where "rest = [] # rest'" by (cases rest) auto
  with fetch_fields [OF assms, of vv] fs slot_Some [OF assms(1,2)]
  show "\<exists>vv' m'. vfscore_fstab_fetch_volume_args (slot m i) vv m = Inr (vv', m') \<and> opts vv' = None"
    by (auto simp: volume_args_def)
next
  show "parse_entry ''sda0:/mnt:ext4::ro'' vv =
           Inr (Some ''sda0'', Some ''/mnt'', Some ''ext4'', 0, Some ''ro'')"
    using fetch_fields [of 0 "[Some ''sda0:/mnt:ext4::ro'']" "''sda0:/mnt:ext4::ro''" vv]
    by (auto simp: parse_entry_def slot_def)
qed

theorem empty_flags_and_options_witness:
  "(0::nat) < length [Some ''sda0:/mnt:ext4::''] \<and> [Some ''sda0:/mnt:ext4::''] ! 0 = Some ''sda0:/mnt:ext4::'' \<and>
   NUL \<notin> set ''sda0:/mnt:ext4::'' \<and>
   3 < length (fields ''sda0:/mnt:ext4::'') \<and> fields ''sda0:/mnt:ext4::'' ! 3 = [] \<and>
   4 < length (fields ''sda0:/mnt:ext4::'') \<and> fields ''sda0:/mnt:ext4::'' ! 4 = [] \<and>
   (\<exists>vv' m'. vfscore_fstab_fetch_volume_args (slot [Some ''sda0:/mnt:ext4::''] 0) vv_stale [Some ''sda0:/mnt:ext4::''] = Inr (vv', m') \<and>
              flags vv' = 0) \<and>
   (\<exists>vv' m'. vfscore_fstab_fetch_volume_args (slot [Some ''sda0:/mnt:ext4::''] 0) vv_stale [Some ''sda0:/mnt:ext4::''] = Inr (vv', m') \<and>
              opts vv' = None)"
  using empty_flags_and_options [of 0 "[Some ''sda0:/mnt:ext4::'']" "''sda0:/mnt:ext4::''" vv_stale]
  by simp

text \<open>
  C6. For every entry string with fewer than three fields the parse fails on an assertion
  about the missing mandatory field (\<^verbatim>\<open>vv->path\<close> when there is one field, \<^verbatim>\<open>vv->drv\<close> when
  there are two), which ends the program: no descriptor is produced, and the turn of the
  loop for that entry ends the same way before anything is mounted.
\<close>

theorem missing_mandatory_field:
  assumes "i < length (fstab st)" "fstab st ! i = Some s" "NUL \<notin> set s" "length (fields s) < 3"
  shows "vfscore_fstab_fetch_volume_args (slot (fstab st) i) vv (fstab st) =
           Inl (UK_ASSERT_failed (if length (fields s) = 1 then ''vv->path'' else ''vv->drv'')) \<and>
         vfscore_automount_fstab_entry cfg e i vv st =
           Inl (UK_ASSERT_failed (if length (fields s) = 1 then ''vv->path'' else ''vv->drv''))"
proof -
  from assms(4) fields_nonempty [of s] consider a where "fields s = [a]" | a b where "fields s = [a, b]"
    by (cases "fields s" rule: list.exhaust; cases "tl (fields s)"; cases "tl (tl (fields s))") auto
  then have "vfscore_fstab_fetch_volume_args (slot (fstab st) i) vv (fstab st) =
           Inl (UK_ASSERT_failed (if length (fields s) = 1 then ''vv->path'' else ''vv->drv''))"
    using fetch_fields [OF assms(1,2,3), of vv] slot_Some [OF assms(1,2)]
    by cases auto
  then show ?thesis
    by (simp add: vfscore_automount_fstab_entry_def)
qed

theorem missing_mandatory_field_witness:
  "(0::nat) < length (fstab \<lparr>fstab = [Some ''sda0:/mnt''], trace = []\<rparr>) \<and>
   fstab \<lparr>fstab = [Some ''sda0:/mnt''], trace = []\<rparr> ! 0 = Some ''sda0:/mnt'' \<and>
   NUL \<notin> set ''sda0:/mnt'' \<and> length (fields ''sda0:/mnt'') < 3 \<and>
   vfscore_fstab_fetch_volume_args (slot [Some ''sda0:/mnt''] 0) vv_stale [Some ''sda0:/mnt''] =
     Inl (UK_ASSERT_failed ''vv->drv'') \<and>
   vfscore_automount_fstab_entry cfg_example env_ok 0 vv_stale \<lparr>fstab = [Some ''sda0:/mnt''], trace = []\<rparr> =
     Inl (UK_ASSERT_failed ''vv->drv'')"
  using missing_mandatory_field [of 0 "\<lparr>fstab = [Some ''sda0:/mnt''], trace = []\<rparr>" "''sda0:/mnt''" vv_stale cfg_example env_ok]
  by simp

text \<open>
  C7. The table is mounted in order and stops at the first failure. Let the root resolver
  have returned a status that is not negative, let the entries before index \<open>k\<close> have been
  parsed and mounted once each, in order, with status 0, and let the mount of entry \<open>k\<close>
  return \<open>rc \<noteq> 0\<close>. Then the entry point returns \<open>rc\<close> in the state reached right after that
  mount, so nothing is called any more; the entries after \<open>k\<close> are untouched, which means
  they have not been parsed; the calls made since the root resolver are \<open>k + 1\<close> groups, one
  for each entry up to \<open>k\<close> and none of them empty; and in a build without the initrd route
  they are exactly \<open>k + 1\<close> calls of \<^verbatim>\<open>mount\<close>.
\<close>

theorem fstab_fail_fast:
  assumes root: "vfscore_automount_rootfs cfg e st_init = Inr (rc0, st0)" "\<not> rc0 < 0"
    and on: "LIBVFSCORE_FSTAB cfg"
    and pre: "fstab_prefix cfg e k vv0 st0 = Some (vv, st)"
    and k: "k < length (fstab st0)" "slot (fstab st) k \<noteq> None"
    and en: "vfscore_automount_fstab_entry cfg e k vv st = Inr (rc, vv', st')"
    and rc: "rc \<noteq> 0"
  shows "vfscore_automount cfg e vv0 st_init = Inr (rc, st') \<and>
         drop (Suc k) (fstab st') = drop (Suc k) (fstab st_init) \<and>
         (\<exists>bs. length bs = Suc k \<and> [] \<notin> set bs \<and> trace st' = trace st0 @ concat bs) \<and>
         (\<not> (LIBUKCPIO cfg \<and> LIBRAMFS cfg) \<longrightarrow>
            (\<exists>ms. length ms = Suc k \<and> trace st' = trace st0 @ map Mount ms))"
proof -
  have "vfscore_automount_fstab_loop cfg e (length (fstab st0)) 0 vv0 st0 =
        vfscore_automount_fstab_loop cfg e (length (fstab st0)) k vv st"
    using fstab_loop_prefix [OF pre] k(1) by simp
  also have "\<dots> = Inr (rc, st')"
    using k en rc by (subst vfscore_automount_fstab_loop.simps) simp
  finally have 1: "vfscore_automount cfg e vv0 st_init = Inr (rc, st')"
    using root on by (simp add: vfscore_automount_def vfscore_automount_fstab_volumes_def)
  from fstab_prefix_frame [OF pre] have "drop k (fstab st) = drop k (fstab st0)" by simp
  then have "drop 1 (drop k (fstab st)) = drop 1 (drop k (fstab st0))" by simp
  then have "drop (Suc k) (fstab st) = drop (Suc k) (fstab st0)" by simp
  with fstab_entry_frame [OF en] rootfs_fstab [OF root(1)]
  have 2: "drop (Suc k) (fstab st') = drop (Suc k) (fstab st_init)" by simp
  have 3: "\<exists>bs. length bs = Suc k \<and> [] \<notin> set bs \<and> trace st' = trace st0 @ concat bs"
  proof -
    from fstab_prefix_trace [OF pre] obtain bs where
      bs: "length bs = k" "[] \<notin> set bs" "trace st = trace st0 @ concat bs" by blast
    from fstab_entry_trace [OF en] obtain b where
      "b \<noteq> []" "trace st' = trace st @ b" by blast
    with bs have "length (bs @ [b]) = Suc k \<and> [] \<notin> set (bs @ [b]) \<and>
        trace st' = trace st0 @ concat (bs @ [b])"
      by auto
    then show ?thesis by blast
  qed
  have 4: "\<exists>ms. length ms = Suc k \<and> trace st' = trace st0 @ map Mount ms"
    if g: "\<not> (LIBUKCPIO cfg \<and> LIBRAMFS cfg)"
  proof -
    from fstab_prefix_generic_trace [OF pre g] obtain ms where
      ms: "length ms = k" "trace st = trace st0 @ map Mount ms" by blast
    from fstab_entry_generic_trace [OF en g] obtain a where
      "trace st' = trace st @ [Mount a]" by blast
    with ms have "length (ms @ [a]) = Suc k \<and> trace st' = trace st0 @ map Mount (ms @ [a])"
      by simp
    then show ?thesis by blast
  qed
  from 1 2 3 4 show ?thesis by blast
qed

theorem fstab_fail_fast_witness:
  "vfscore_automount (cfg_example\<lparr>LIBUKCPIO := False\<rparr>) (env_mount_returns 2 5) vv_stale st_three =
     Inr (5, \<lparr>fstab = [Some (''sda0'' @ NUL # ''/mnt'' @ NUL # ''ext4'' @ NUL # ''0'' @ NUL # ''rw''),
                       Some (''sdb1'' @ NUL # ''/data'' @ NUL # ''fat'' @ NUL # ''1'' @ NUL # ''ro''),
                       Some ''sdc1:/opt:ext2:0:rw''],
              trace = [Mount (Some [], Some ''/'', Some ''ramfs'', 0, Some []),
                       Mount (Some ''sda0'', Some ''/mnt'', Some ''ext4'', 0, Some ''rw''),
                       Mount (Some ''sdb1'', Some ''/data'', Some ''fat'', 1, Some ''ro'')]\<rparr>) \<and>
   drop 2 [Some (''sda0'' @ NUL # ''/mnt'' @ NUL # ''ext4'' @ NUL # ''0'' @ NUL # ''rw''),
           Some (''sdb1'' @ NUL # ''/data'' @ NUL # ''fat'' @ NUL # ''1'' @ NUL # ''ro''),
           Some ''sdc1:/opt:ext2:0:rw''] = drop 2 (fstab st_three) \<and>
   (\<exists>bs. length bs = Suc 1 \<and> [] \<notin> set bs \<and>
      [Mount (Some [], Some ''/'', Some ''ramfs'', 0, Some []),
       Mount (Some ''sda0'', Some ''/mnt'', Some ''ext4'', 0, Some ''rw''),
       Mount (Some ''sdb1'', Some ''/data'', Some ''fat'', 1, Some ''ro'')] =
      [Mount (Some [], Some ''/'', Some ''ramfs'', 0, Some [])] @ concat bs) \<and>
   (\<exists>ms. length ms = Suc 1 \<and>
      [Mount (Some [], Some ''/'', Some ''ramfs'', 0, Some []),
       Mount (Some ''sda0'', Some ''/mnt'', Some ''ext4'', 0, Some ''rw''),
       Mount (Some ''sdb1'', Some ''/data'', Some ''fat'', 1, Some ''ro'')] =
      [Mount (Some [], Some ''/'', Some ''ramfs'', 0, Some [])] @ map Mount ms)"
proof -
  let ?cfg = "cfg_example\<lparr>LIBUKCPIO := False\<rparr>"
  let ?e = "env_mount_returns 2 5"
  let ?b0 = "''sda0'' @ NUL # ''/mnt'' @ NUL # ''ext4'' @ NUL # ''0'' @ NUL # ''rw''"
  let ?b1 = "''sdb1'' @ NUL # ''/data'' @ NUL # ''fat'' @ NUL # ''1'' @ NUL # ''ro''"
  let ?m0 = "Mount (Some [], Some ''/'', Some ''ramfs'', 0, Some [])"
  let ?m1 = "Mount (Some ''sda0'', Some ''/mnt'', Some ''ext4'', 0, Some ''rw'')"
  let ?m2 = "Mount (Some ''sdb1'', Some ''/data'', Some ''fat'', 1, Some ''ro'')"
  let ?st0 = "\<lparr>fstab = fstab st_three, trace = [?m0]\<rparr>"
  let ?vv1 = "\<lparr>sdev = Some (Mut (0, 0)), path = Some (Mut (0, 5)),
      drv = Some (Mut (0, 10)), flags = 0, opts = Some (Mut (0, 17))\<rparr>"
  let ?st1 = "\<lparr>fstab = [Some ?b0, Some ''sdb1:/data:fat:1:ro'', Some ''sdc1:/opt:ext2:0:rw''], trace = [?m0, ?m1]\<rparr>"
  let ?vv2 = "\<lparr>sdev = Some (Mut (1, 0)), path = Some (Mut (1, 5)),
      drv = Some (Mut (1, 11)), flags = 1, opts = Some (Mut (1, 17))\<rparr>"
  let ?st2 = "\<lparr>fstab = [Some ?b0, Some ?b1, Some ''sdc1:/opt:ext2:0:rw''], trace = [?m0, ?m1, ?m2]\<rparr>"
  have h1: "vfscore_automount_rootfs ?cfg ?e st_three = Inr (0, ?st0)" by code_simp
  have h2: "\<not> (0::int) < 0" by simp
  have h3: "LIBVFSCORE_FSTAB ?cfg" by code_simp
  have h4: "fstab_prefix ?cfg ?e 1 vv_stale ?st0 = Some (?vv1, ?st1)" by code_simp
  have h5: "1 < length (fstab ?st0)" by code_simp
  have h6: "slot (fstab ?st1) 1 \<noteq> None" by code_simp
  have h7: "vfscore_automount_fstab_entry ?cfg ?e 1 ?vv1 ?st1 = Inr (5, ?vv2, ?st2)" by code_simp
  have h8: "(5::int) \<noteq> 0" by simp
  have g: "\<not> (LIBUKCPIO ?cfg \<and> LIBRAMFS ?cfg)" by code_simp
  from fstab_fail_fast [OF h1 h2 h3 h4 h5 h6 h7 h8] g show ?thesis
    by (simp add: st_three_def)
qed

text \<open>
  C8. In a build that takes the root file system from the options (no embedded image),
  when the driver option is empty or null the root resolver returns 0 at once and leaves
  the state as it was: no call of \<^verbatim>\<open>mount\<close>, none of the memory-region lookup, none of
  \<^verbatim>\<open>ukcpio_extract\<close>.
\<close>

theorem rootfs_empty_driver:
  assumes "\<not> LIBVFSCORE_ROOTFS_EINITRD cfg"
    "LIBVFSCORE_ROOTFS cfg = None \<or> LIBVFSCORE_ROOTFS cfg = Some []"
  shows "vfscore_automount_rootfs cfg e st = Inr (0, st)"
  using assms
  by (auto simp: vfscore_automount_rootfs_def rootfs_volume_def deref_def cstr_at_def)

theorem rootfs_empty_driver_witness:
  "\<not> LIBVFSCORE_ROOTFS_EINITRD (cfg_example\<lparr>LIBVFSCORE_ROOTFS := Some []\<rparr>) \<and>
   LIBVFSCORE_ROOTFS (cfg_example\<lparr>LIBVFSCORE_ROOTFS := Some []\<rparr>) = Some [] \<and>
   vfscore_automount_rootfs (cfg_example\<lparr>LIBVFSCORE_ROOTFS := Some []\<rparr>) env_ok st_one = Inr (0, st_one)"
  using rootfs_empty_driver [of "cfg_example\<lparr>LIBVFSCORE_ROOTFS := Some []\<rparr>" env_ok st_one]
  by (simp add: cfg_example_def)

text \<open>
  C9. In a build that takes the root file system from the options and has the initrd
  route (\<^verbatim>\<open>CONFIG_LIBUKCPIO\<close> and \<^verbatim>\<open>CONFIG_LIBRAMFS\<close>), when the driver option starts with
  \<^verbatim>\<open>initrd\<close> and the memory-region lookup reports a negative status, the root resolver
  returns \<open>-1\<close> after that one lookup, without any call of \<^verbatim>\<open>mount\<close>, and the entry point
  returns \<open>-1\<close> in the same state, so the table is not looked at.
\<close>

theorem rootfs_initrd_unavailable:
  assumes "LIBVFSCORE_AUTOMOUNT_ROOTFS cfg" "\<not> LIBVFSCORE_ROOTFS_EINITRD cfg"
    "LIBUKCPIO cfg" "LIBRAMFS cfg"
    "LIBVFSCORE_ROOTFS cfg = Some (''initrd'' @ r)"
    "fst (env_find_initrd0 e (trace st)) < 0"
  shows "vfscore_automount_rootfs cfg e st =
           Inr (- 1, st\<lparr>trace := trace st @ [Memregion_find_initrd0]\<rparr>) \<and>
         vfscore_automount cfg e vv0 st =
           Inr (- 1, st\<lparr>trace := trace st @ [Memregion_find_initrd0]\<rparr>)"
proof -
  have "strncmp (''initrd'' @ takeWhile (\<lambda>c. c \<noteq> NUL) r) ''initrd'' 6 = 0"
    by (simp add: eval_nat_numeral)
  with assms have "vfscore_automount_rootfs cfg e st =
           Inr (- 1, st\<lparr>trace := trace st @ [Memregion_find_initrd0]\<rparr>)"
    by (auto simp: vfscore_automount_rootfs_def rootfs_volume_def deref_def cstr_at_def
        drv_is_initrd_def vfscore_mount_initrd_volume_def ukplat_memregion_find_initrd0_def
        split: prod.splits)
  then show ?thesis
    by (simp add: vfscore_automount_def)
qed

theorem rootfs_initrd_unavailable_witness:
  "LIBVFSCORE_AUTOMOUNT_ROOTFS (cfg_example\<lparr>LIBVFSCORE_ROOTFS := Some (''initrd'' @ ''0'')\<rparr>) \<and>
   \<not> LIBVFSCORE_ROOTFS_EINITRD (cfg_example\<lparr>LIBVFSCORE_ROOTFS := Some (''initrd'' @ ''0'')\<rparr>) \<and>
   LIBUKCPIO (cfg_example\<lparr>LIBVFSCORE_ROOTFS := Some (''initrd'' @ ''0'')\<rparr>) \<and>
   LIBRAMFS (cfg_example\<lparr>LIBVFSCORE_ROOTFS := Some (''initrd'' @ ''0'')\<rparr>) \<and>
   fst (env_find_initrd0 env_no_initrd (trace st_one)) < 0 \<and>
   vfscore_automount_rootfs (cfg_example\<lparr>LIBVFSCORE_ROOTFS := Some (''initrd'' @ ''0'')\<rparr>) env_no_initrd st_one =
     Inr (- 1, \<lparr>fstab = [Some ''sda0:/mnt:ext4:0:rw''], trace = [Memregion_find_initrd0]\<rparr>) \<and>
   vfscore_automount (cfg_example\<lparr>LIBVFSCORE_ROOTFS := Some (''initrd'' @ ''0'')\<rparr>) env_no_initrd vv_stale st_one =
     Inr (- 1, \<lparr>fstab = [Some ''sda0:/mnt:ext4:0:rw''], trace = [Memregion_find_initrd0]\<rparr>)"
  using rootfs_initrd_unavailable [of "cfg_example\<lparr>LIBVFSCORE_ROOTFS := Some (''initrd'' @ ''0'')\<rparr>"
      "''0''" env_no_initrd st_one vv_stale]
  by (simp add: cfg_example_def env_no_initrd_def env_ok_def st_one_def)

text \<open>
  C10. A flags field that is present and not empty is never a parse error: for every such
  entry the parse succeeds and the flags are what \<^verbatim>\<open>strtol\<close> with base 0 makes of the
  field. Characters after the number are ignored (\<^verbatim>\<open>12abc\<close> gives 12) and a field that does
  not start with a number gives 0 (\<^verbatim>\<open>ro\<close> gives 0).
\<close>

theorem flags_token_never_an_error:
  assumes "i < length m" "m ! i = Some s" "NUL \<notin> set s"
    "3 < length (fields s)" "fields s ! 3 \<noteq> []"
  shows "(\<exists>vv' m'. vfscore_fstab_fetch_volume_args (slot m i) vv m = Inr (vv', m') \<and>
            flags vv' = word_of_int (strtol (fields s ! 3) 0)) \<and>
         strtol ''12abc'' 0 = 12 \<and> strtol ''ro'' 0 = 0 \<and>
         parse_entry ''sda0:/mnt:ext4:12abc:rw'' vv =
           Inr (Some ''sda0'', Some ''/mnt'', Some ''ext4'', 12, Some ''rw'') \<and>
         parse_entry ''sda0:/mnt:ext4:ro'' vv =
           Inr (Some ''sda0'', Some ''/mnt'', Some ''ext4'', 0, None)"
proof -
  from assms(4) obtain a b c f rest where fs: "fields s = a # b # c # f # rest"
    using long_fields by blast
  with assms(5) have "f \<noteq> []" "fields s ! 3 = f" by simp_all
  with fetch_fields [OF assms(1,2,3), of vv] fs slot_Some [OF assms(1,2)]
  have 1: "\<exists>vv' m'. vfscore_fstab_fetch_volume_args (slot m i) vv m = Inr (vv', m') \<and>
            flags vv' = word_of_int (strtol (fields s ! 3) 0)"
    by (auto simp: volume_args_def)
  have 2: "strtol ''12abc'' 0 = 12"
    by (simp add: strtol_def strtol_sign_def strtol_base_def isspace_def digit_of_def LONG_MAX_def)
  have 3: "strtol ''ro'' 0 = 0"
    by (simp add: strtol_def strtol_sign_def strtol_base_def isspace_def digit_of_def LONG_MAX_def)
  have 4: "parse_entry ''sda0:/mnt:ext4:12abc:rw'' vv =
           Inr (Some ''sda0'', Some ''/mnt'', Some ''ext4'', 12, Some ''rw'')"
    using fetch_fields [of 0 "[Some ''sda0:/mnt:ext4:12abc:rw'']" "''sda0:/mnt:ext4:12abc:rw''" vv] 2
    by (auto simp: parse_entry_def slot_def)
  have 5: "parse_entry ''sda0:/mnt:ext4:ro'' vv =
           Inr (Some ''sda0'', Some ''/mnt'', Some ''ext4'', 0, None)"
    using fetch_fields [of 0 "[Some ''sda0:/mnt:ext4:ro'']" "''sda0:/mnt:ext4:ro''" vv] 3
    by (auto simp: parse_entry_def slot_def)
  from 1 2 3 4 5 show ?thesis by blast
qed

theorem flags_token_never_an_error_witness:
  "(0::nat) < length [Some ''sda0:/mnt:ext4:7up:rw''] \<and>
   [Some ''sda0:/mnt:ext4:7up:rw''] ! 0 = Some ''sda0:/mnt:ext4:7up:rw'' \<and>
   NUL \<notin> set ''sda0:/mnt:ext4:7up:rw'' \<and>
   3 < length (fields ''sda0:/mnt:ext4:7up:rw'') \<and> fields ''sda0:/mnt:ext4:7up:rw'' ! 3 \<noteq> [] \<and>
   (\<exists>vv' m'. vfscore_fstab_fetch_volume_args (slot [Some ''sda0:/mnt:ext4:7up:rw''] 0) vv_stale
                [Some ''sda0:/mnt:ext4:7up:rw''] = Inr (vv', m') \<and> flags vv' = 7)"
proof -
  have "strtol ''7up'' 0 = 7"
    by (simp add: strtol_def strtol_sign_def strtol_base_def isspace_def digit_of_def LONG_MAX_def)
  then show ?thesis
    using flags_token_never_an_error [of 0 "[Some ''sda0:/mnt:ext4:7up:rw'']" "''sda0:/mnt:ext4:7up:rw''" vv_stale]
    by simp
qed

end
